theory Spec2Isabelle
  imports Complex_Main "HOL-Library.Multiset" "HOL-Library.Char_ord" "HOL-Library.List_Lexorder"
begin

section \<open>Python errors and results\<close>

text \<open>
  Every \<^verbatim>\<open>raise\<close>, failed \<^verbatim>\<open>assert\<close> and failing library call of the
  source is a value: a function that can fail returns \<open>py_error + 'a\<close>, with \<open>Inl\<close> the
  exception.
\<close>

datatype py_error =
    AssertionError
  | ValueError string
  | KeyError string
  | IndexError
  | AttributeError string
  | TypeError
  | RuntimeError

definition bind_err :: "py_error + 'a \<Rightarrow> ('a \<Rightarrow> py_error + 'b) \<Rightarrow> py_error + 'b" where
  "bind_err m f = (case m of Inl e \<Rightarrow> Inl e | Inr v \<Rightarrow> f v)"

definition getitem :: "(string \<rightharpoonup> 'v) \<Rightarrow> string \<Rightarrow> py_error + 'v" where
  \<comment> \<open>\<^verbatim>\<open>d[key]\<close> on a Python dict\<close>
  "getitem d k = (case d k of None \<Rightarrow> Inl (KeyError k) | Some v \<Rightarrow> Inr v)"

section \<open>Tensors\<close>

text \<open>
  A tensor is its shape and its entries in row-major order, as torch stores a contiguous
  tensor. The entries are real numbers: floating-point rounding, infinities and NaN are
  not part of this model.
\<close>

record tensor =
  shape :: "nat list"
  data :: "real list"

definition wf_tensor :: "tensor \<Rightarrow> bool" where
  "wf_tensor t \<longleftrightarrow> length (data t) = prod_list (shape t)"

definition ndim :: "tensor \<Rightarrow> nat" where
  "ndim t = length (shape t)"

text \<open>Broadcasting of two shapes, on the reversed shapes (trailing dimensions first).\<close>

fun broadcast_rev :: "nat list \<Rightarrow> nat list \<Rightarrow> nat list option" where
  "broadcast_rev [] ys = Some ys"
| "broadcast_rev (x # xs) [] = Some (x # xs)"
| "broadcast_rev (x # xs) (y # ys) =
     (if x = y \<or> y = 1 then map_option ((#) x) (broadcast_rev xs ys)
      else if x = 1 then map_option ((#) y) (broadcast_rev xs ys)
      else None)"

definition broadcast_shapes :: "nat list \<Rightarrow> nat list \<Rightarrow> nat list option" where
  "broadcast_shapes s1 s2 = map_option rev (broadcast_rev (rev s1) (rev s2))"

text \<open>All multi-indices of a shape in row-major order, and the flat offset of one.\<close>

fun indices :: "nat list \<Rightarrow> nat list list" where
  "indices [] = [[]]"
| "indices (d # ds) = concat (map (\<lambda>i. map ((#) i) (indices ds)) [0..<d])"

fun offset :: "nat list \<Rightarrow> nat list \<Rightarrow> nat" where
  "offset (d # ds) (i # is) = i * prod_list ds + offset ds is"
| "offset _ _ = 0"

definition bread :: "tensor \<Rightarrow> nat list \<Rightarrow> real" where
  \<comment> \<open>the entry of \<open>t\<close> that a broadcast result reads at multi-index \<open>idx\<close>\<close>
  "bread t idx =
     data t ! offset (shape t)
       (map2 (\<lambda>d i. if d = 1 then 0 else i) (shape t) (drop (length idx - ndim t) idx))"

definition tbinop :: "(real \<Rightarrow> real \<Rightarrow> real) \<Rightarrow> tensor \<Rightarrow> tensor \<Rightarrow> py_error + tensor" where
  \<comment> \<open>an elementwise binary operator of torch, with broadcasting\<close>
  "tbinop f a b =
     (case broadcast_shapes (shape a) (shape b) of
        None \<Rightarrow> Inl RuntimeError
      | Some s \<Rightarrow> Inr \<lparr>shape = s, data = map (\<lambda>idx. f (bread a idx) (bread b idx)) (indices s)\<rparr>)"

definition tsub :: "tensor \<Rightarrow> tensor \<Rightarrow> py_error + tensor" where
  "tsub = tbinop (-)"

definition tmul :: "tensor \<Rightarrow> tensor \<Rightarrow> py_error + tensor" where
  "tmul = tbinop (*)"

definition tmean :: "tensor \<Rightarrow> real" where
  \<comment> \<open>\<^verbatim>\<open>t.mean()\<close>: the mean of all entries, a 0-dimensional tensor\<close>
  "tmean t = sum_list (data t) / real (length (data t))"

definition column :: "tensor \<Rightarrow> nat \<Rightarrow> real list" where
  \<comment> \<open>the entries along dimension 0 at inner offset \<open>j\<close>\<close>
  "column t j =
     map (\<lambda>q. data t ! (q * prod_list (tl (shape t)) + j)) [0..<hd (shape t)]"

definition softmax_dim0 :: "tensor \<Rightarrow> tensor" where
  \<comment> \<open>\<^verbatim>\<open>torch.softmax(t, dim=0)\<close>\<close>
  "softmax_dim0 t =
     \<lparr>shape = shape t,
      data = map (\<lambda>i. exp (data t ! i) /
                    sum_list (map exp (column t (i mod prod_list (tl (shape t))))))
               [0..<length (data t)]\<rparr>"

definition detach :: "tensor \<Rightarrow> tensor" where
  \<comment> \<open>\<^verbatim>\<open>t.detach()\<close> cuts the gradient graph; the values are the same\<close>
  "detach t = t"

definition sum_dim0 :: "tensor \<Rightarrow> tensor" where
  \<comment> \<open>\<^verbatim>\<open>t.sum(dim=0)\<close>\<close>
  "sum_dim0 t =
     \<lparr>shape = tl (shape t),
      data = map (\<lambda>j. sum_list (column t j)) [0..<prod_list (tl (shape t))]\<rparr>"

definition mean_dim0 :: "tensor \<Rightarrow> tensor" where
  \<comment> \<open>\<^verbatim>\<open>t.mean(0)\<close>; on a 0-dimensional tensor it is the tensor itself\<close>
  "mean_dim0 t =
     (if shape t = [] then t
      else \<lparr>shape = tl (shape t),
            data = map (\<lambda>j. sum_list (column t j) / real (hd (shape t)))
                     [0..<prod_list (tl (shape t))]\<rparr>)"

definition tneg :: "tensor \<Rightarrow> tensor" where
  "tneg t = \<lparr>shape = shape t, data = map uminus (data t)\<rparr>"

section \<open>The module WVAE\<close>

text \<open>The attributes of a \<^verbatim>\<open>WVAE\<close> instance that the modelled methods read.\<close>

record wvae =
  n_input :: nat
  n_particles :: nat
  loss_type :: string
  dispersion :: string
  encode_covariates :: bool
  use_observed_lib_size :: bool

record loss_recorder =
  loss :: real
  reconstruction_loss :: tensor
  kl_local :: real
  kl_global :: real

subsection \<open>WVAE.loss\<close>

definition loss_value :: "string \<Rightarrow> tensor \<Rightarrow> py_error + real" where
  \<comment> \<open>the \<^verbatim>\<open>if\<close>/\<^verbatim>\<open>elif\<close>/\<^verbatim>\<open>else\<close> over \<^verbatim>\<open>self.loss_type\<close>\<close>
  "loss_value lt log_ratios =
     (if lt = ''ELBO'' then Inr (- tmean log_ratios)
      else if lt = ''IWELBO'' then
        bind_err (tmul (detach (softmax_dim0 log_ratios)) log_ratios)
          (\<lambda>w. Inr (- tmean (sum_dim0 w)))
      else Inl (ValueError (''Unknown loss type '' @ lt)))"

definition WVAE_loss ::
  "wvae \<Rightarrow> (string \<rightharpoonup> tensor) \<Rightarrow> (string \<rightharpoonup> tensor) \<Rightarrow> (string \<rightharpoonup> tensor) \<Rightarrow> real
     \<Rightarrow> py_error + loss_recorder" where
  "WVAE_loss self tensors inference_outputs generative_outputs kl_weight =
     bind_err (getitem generative_outputs ''log_pjoint'') (\<lambda>log_pjoint.
     bind_err (getitem inference_outputs ''log_qjoint'') (\<lambda>log_qjoint.
     bind_err (tsub log_pjoint log_qjoint) (\<lambda>log_ratios.
     if ndim log_ratios \<noteq> 2 then Inl AssertionError
     else
       bind_err (loss_value (loss_type self) log_ratios) (\<lambda>l.
       bind_err (getitem generative_outputs ''log_px_latents'') (\<lambda>log_px_latents.
       Inr \<lparr>loss = l,
            reconstruction_loss = tneg (mean_dim0 log_px_latents),
            kl_local = 0,
            kl_global = 0\<rparr>)))))"

subsection \<open>The loss as the specification words it\<close>

text \<open>
  For a matrix of log-ratios of shape (particles, cells), \<open>entry lr p c\<close> is the
  log-ratio of particle \<open>p\<close> and cell \<open>c\<close>. The ELBO loss is the negative mean of all
  entries; the IWELBO loss is the negative mean over cells of the sum over particles of
  the softmax weight (over the particle axis) times the log-ratio.
\<close>

definition entry :: "tensor \<Rightarrow> nat \<Rightarrow> nat \<Rightarrow> real" where
  "entry t p c = data t ! (p * (shape t ! 1) + c)"

definition spec_elbo :: "tensor \<Rightarrow> real" where
  "spec_elbo lr =
     - ((\<Sum>p<shape lr ! 0. \<Sum>c<shape lr ! 1. entry lr p c) / real (shape lr ! 0 * shape lr ! 1))"

definition spec_weight :: "tensor \<Rightarrow> nat \<Rightarrow> nat \<Rightarrow> real" where
  "spec_weight lr p c = exp (entry lr p c) / (\<Sum>q<shape lr ! 0. exp (entry lr q c))"

definition spec_iwelbo :: "tensor \<Rightarrow> real" where
  "spec_iwelbo lr =
     - ((\<Sum>c<shape lr ! 1. \<Sum>p<shape lr ! 0. spec_weight lr p c * entry lr p c) / real (shape lr ! 1))"


text \<open>A module of three genes and two particles with the given loss mode, for examples.\<close>

definition cfg :: "string \<Rightarrow> wvae" where
  "cfg mode = \<lparr>n_input = 3, n_particles = 2, loss_type = mode, dispersion = ''gene'',
                encode_covariates = False, use_observed_lib_size = False\<rparr>"

subsection \<open>WVAE.inference and WVAE.generative, on shapes\<close>

text \<open>
  The encoder, the decoder and the likelihood are networks and distributions of other
  modules; what \<^verbatim>\<open>inference\<close> and \<^verbatim>\<open>generative\<close> themselves decide is how the
  tensors are sampled, reduced and combined. They are modelled on shapes: a tensor is
  abstracted to its shape, a distribution to its batch shape, and a Python float and
  \<^verbatim>\<open>None\<close> to themselves. Operations that keep the shape (\<^verbatim>\<open>torch.log\<close>,
  \<^verbatim>\<open>torch.exp\<close>, the \<^verbatim>\<open>log_variational\<close> transform, \<^verbatim>\<open>z_transformation\<close>,
  the \<^verbatim>\<open>transform_batch\<close> override, unary minus) are the identity here.
\<close>

type_synonym tshape = "nat list"

datatype pyval = Tensor tshape | Dist tshape | PyFloat | PyNone

text \<open>
  The callees of \<^verbatim>\<open>inference\<close> and \<^verbatim>\<open>generative\<close> that are defined in the base
  class \<^verbatim>\<open>VAE\<close> and in \<^verbatim>\<open>scvi.nn\<close>, as functions on shapes. They are parameters of
  the model; the theorems state what they assume of them.
\<close>

record collaborators =
  z_encoder :: "tshape \<Rightarrow> tshape \<Rightarrow> tshape list \<Rightarrow> py_error + tshape"
    \<comment> \<open>encoder input, batch index, categorical inputs; the batch shape of \<^verbatim>\<open>qz\<close>\<close>
  l_encoder :: "tshape \<Rightarrow> tshape \<Rightarrow> tshape list \<Rightarrow> py_error + tshape"
    \<comment> \<open>the batch shape of \<^verbatim>\<open>ql\<close>\<close>
  decoder :: "string \<Rightarrow> tshape \<Rightarrow> tshape \<Rightarrow> tshape \<Rightarrow> tshape list \<Rightarrow> tshape option
                \<Rightarrow> py_error + (pyval \<times> pyval \<times> pyval \<times> pyval)"
    \<comment> \<open>dispersion, decoder input, library, batch index, categorical inputs, labels;
        \<^verbatim>\<open>px_scale, px_r, px_rate, px_dropout\<close>\<close>
  compute_local_library_params :: "tshape \<Rightarrow> py_error + (tshape \<times> tshape)"
  get_reconstruction_loss :: "tshape \<Rightarrow> pyval \<Rightarrow> pyval \<Rightarrow> pyval \<Rightarrow> py_error + tshape"
  one_hot_linear :: "tshape \<Rightarrow> py_error + tshape"
    \<comment> \<open>\<^verbatim>\<open>F.linear(one_hot(index, n), self.px_r)\<close>\<close>
  base_get_generative_input ::
    "(string \<rightharpoonup> pyval) \<Rightarrow> (string \<rightharpoonup> pyval) \<Rightarrow> py_error + (string \<rightharpoonup> pyval)"
    \<comment> \<open>\<^verbatim>\<open>VAE._get_generative_input\<close>\<close>
  x_key :: string
    \<comment> \<open>\<^verbatim>\<open>REGISTRY_KEYS.X_KEY\<close>\<close>

definition sum_dim :: "nat \<Rightarrow> tshape \<Rightarrow> py_error + tshape" where
  \<comment> \<open>\<^verbatim>\<open>t.sum(d)\<close> for \<open>d \<ge> 0\<close>\<close>
  "sum_dim d s = (if d < length s then Inr (take d s @ drop (Suc d) s) else Inl IndexError)"

definition sum_last :: "tshape \<Rightarrow> tshape" where
  \<comment> \<open>\<^verbatim>\<open>t.sum(-1)\<close>; a 0-dimensional tensor stays 0-dimensional\<close>
  "sum_last s = butlast s"

definition unsqueeze :: "nat \<Rightarrow> tshape \<Rightarrow> py_error + tshape" where
  "unsqueeze d s = (if d \<le> length s then Inr (take d s @ [1] @ drop d s) else Inl IndexError)"

definition cat_last :: "tshape \<Rightarrow> tshape \<Rightarrow> py_error + tshape" where
  \<comment> \<open>\<^verbatim>\<open>torch.cat((a, b), dim=-1)\<close>\<close>
  "cat_last a b =
     (if a = [] \<or> b = [] then Inl RuntimeError
      else if butlast a = butlast b then Inr (butlast a @ [last a + last b])
      else Inl RuntimeError)"

definition split_dim1 :: "tshape \<Rightarrow> py_error + tshape list" where
  \<comment> \<open>\<^verbatim>\<open>torch.split(t, 1, dim=1)\<close>\<close>
  "split_dim1 s =
     (if 1 < length s then Inr (replicate (s ! 1) (s[1 := 1])) else Inl IndexError)"

definition rsample :: "tshape \<Rightarrow> tshape \<Rightarrow> tshape" where
  \<comment> \<open>\<^verbatim>\<open>dist.rsample(sample_shape)\<close>\<close>
  "rsample batch_shape sample_shape = sample_shape @ batch_shape"

definition broadcast :: "tshape \<Rightarrow> tshape \<Rightarrow> py_error + tshape" where
  "broadcast a b = (case broadcast_shapes a b of None \<Rightarrow> Inl RuntimeError | Some s \<Rightarrow> Inr s)"

definition log_prob :: "tshape \<Rightarrow> tshape \<Rightarrow> py_error + tshape" where
  \<comment> \<open>\<^verbatim>\<open>dist.log_prob(value)\<close> of a \<^verbatim>\<open>Normal\<close>\<close>
  "log_prob batch_shape v = broadcast v batch_shape"

fun py_add :: "pyval \<Rightarrow> pyval \<Rightarrow> py_error + pyval" where
  "py_add (Tensor a) (Tensor b) = bind_err (broadcast a b) (\<lambda>s. Inr (Tensor s))"
| "py_add (Tensor a) PyFloat = Inr (Tensor a)"
| "py_add PyFloat (Tensor b) = Inr (Tensor b)"
| "py_add PyFloat PyFloat = Inr PyFloat"
| "py_add _ _ = Inl TypeError"

text \<open>
  Where the library size comes from: the observed total count of each cell, or the
  approximate posterior \<^verbatim>\<open>ql\<close> of the library encoder.
\<close>

datatype library_source = Observed tshape | Posterior tshape

definition inference ::
  "wvae \<Rightarrow> collaborators \<Rightarrow> tshape \<Rightarrow> tshape \<Rightarrow> tshape option \<Rightarrow> tshape option \<Rightarrow> nat option
     \<Rightarrow> py_error + (string \<rightharpoonup> pyval)" where
  "inference self nets x batch_index cont_covs cat_covs n_samples =
     (let n_samples0 = (case n_samples of None \<Rightarrow> n_particles self | Some n \<Rightarrow> n);
          n_samples' = (if n_samples0 = 1 then [] else [n_samples0])
      in
      bind_err (if use_observed_lib_size self
                then bind_err (sum_dim 1 x) (\<lambda>s. bind_err (unsqueeze 1 s) (\<lambda>l. Inr (Some l)))
                else Inr None) (\<lambda>observed_library.
      bind_err (case cont_covs of
                  Some cc \<Rightarrow> if encode_covariates self then cat_last x cc else Inr x
                | None \<Rightarrow> Inr x) (\<lambda>encoder_input.
      bind_err (case cat_covs of
                  Some cc \<Rightarrow> if encode_covariates self then split_dim1 cc else Inr []
                | None \<Rightarrow> Inr []) (\<lambda>categorical_input.
      bind_err (z_encoder nets encoder_input batch_index categorical_input) (\<lambda>qz.
      bind_err (case observed_library of
                  Some l \<Rightarrow> Inr (Observed l)
                | None \<Rightarrow> bind_err (l_encoder nets encoder_input batch_index categorical_input)
                            (\<lambda>ql. Inr (Posterior ql))) (\<lambda>lib.
      let untran_z = rsample qz n_samples' in
      bind_err (log_prob qz untran_z) (\<lambda>lp_z.
      let log_qz = sum_last lp_z; z = untran_z in
      bind_err (case lib of
                  Observed l \<Rightarrow> Inr (l, PyFloat, l)
                | Posterior ql \<Rightarrow>
                    let library = rsample ql n_samples' in
                    bind_err (log_prob ql library) (\<lambda>lp_l.
                    Inr (library, Tensor (sum_last lp_l), ql)))
        (\<lambda>(library, log_ql, point_library).
      bind_err (py_add log_ql (Tensor log_qz)) (\<lambda>log_qjoint.
      Inr [''z'' \<mapsto> Tensor z,
           ''qz'' \<mapsto> Dist qz,
           ''ql'' \<mapsto> (case lib of Observed l \<Rightarrow> PyNone | Posterior ql \<Rightarrow> Dist ql),
           ''library'' \<mapsto> Tensor library,
           ''log_ql'' \<mapsto> log_ql,
           ''log_qz'' \<mapsto> Tensor log_qz,
           ''log_qjoint'' \<mapsto> log_qjoint,
           ''point_library'' \<mapsto> Tensor point_library])))))))))"

definition select_px_r ::
  "wvae \<Rightarrow> collaborators \<Rightarrow> pyval \<Rightarrow> tshape \<Rightarrow> tshape option \<Rightarrow> py_error + pyval" where
  \<comment> \<open>the \<^verbatim>\<open>if\<close>/\<^verbatim>\<open>elif\<close> over \<^verbatim>\<open>self.dispersion\<close>, then \<^verbatim>\<open>torch.exp\<close>\<close>
  "select_px_r self nets px_r batch_index y =
     bind_err
       (if dispersion self = ''gene-label'' then
          (case y of None \<Rightarrow> Inl TypeError
           | Some ys \<Rightarrow> bind_err (one_hot_linear nets ys) (\<lambda>s. Inr (Tensor s)))
        else if dispersion self = ''gene-batch'' then
          bind_err (one_hot_linear nets batch_index) (\<lambda>s. Inr (Tensor s))
        else if dispersion self = ''gene'' then Inr (Tensor [n_input self])
        else Inr px_r)
       (\<lambda>r. case r of Tensor s \<Rightarrow> Inr (Tensor s) | _ \<Rightarrow> Inl TypeError)"

definition generative ::
  "wvae \<Rightarrow> collaborators \<Rightarrow> tshape \<Rightarrow> tshape \<Rightarrow> tshape \<Rightarrow> tshape \<Rightarrow> tshape option
     \<Rightarrow> tshape option \<Rightarrow> tshape option \<Rightarrow> py_error + (string \<rightharpoonup> pyval)" where
  "generative self nets z library batch_index x cont_covs cat_covs y =
     bind_err (case cont_covs of
                 None \<Rightarrow> Inr z
               | Some cc \<Rightarrow>
                   (case z of
                      [] \<Rightarrow> Inl IndexError
                    | n_samples # _ \<Rightarrow>
                        (case cc of
                           [n_obs, n_cont] \<Rightarrow> cat_last z [n_samples, n_obs, n_cont]
                         | _ \<Rightarrow> Inl (ValueError ''unpack'')))) (\<lambda>decoder_input.
     bind_err (case cat_covs of Some cc \<Rightarrow> split_dim1 cc | None \<Rightarrow> Inr [])
       (\<lambda>categorical_input.
     bind_err (decoder nets (dispersion self) decoder_input library batch_index
                 categorical_input y) (\<lambda>(px_scale, px_r0, px_rate, px_dropout).
     bind_err (select_px_r self nets px_r0 batch_index y) (\<lambda>px_r.
     let log_pz = sum_last z in
     bind_err (if use_observed_lib_size self then Inr PyFloat
               else
                 bind_err (compute_local_library_params nets batch_index)
                   (\<lambda>(local_library_log_means, local_library_log_vars).
                 bind_err (broadcast local_library_log_means local_library_log_vars) (\<lambda>pl.
                 bind_err (log_prob pl library) (\<lambda>lp. Inr (Tensor (sum_last lp))))))
       (\<lambda>log_pl.
     bind_err (get_reconstruction_loss nets x px_rate px_r px_dropout) (\<lambda>log_px_latents.
     bind_err (py_add (Tensor log_px_latents) (Tensor log_pz)) (\<lambda>s.
     bind_err (py_add s log_pl) (\<lambda>log_pjoint.
     Inr [''px_scale'' \<mapsto> px_scale,
          ''px_r'' \<mapsto> px_r,
          ''px_rate'' \<mapsto> px_rate,
          ''px_dropout'' \<mapsto> px_dropout,
          ''log_pl'' \<mapsto> log_pl,
          ''log_px_latents'' \<mapsto> Tensor log_px_latents,
          ''log_pz'' \<mapsto> Tensor log_pz,
          ''log_pjoint'' \<mapsto> log_pjoint]))))))))"

subsection \<open>WVAE.estimate\_likelihood\<close>

definition as_tensor :: "pyval option \<Rightarrow> py_error + tshape" where
  \<comment> \<open>a keyword argument that \<^verbatim>\<open>generative\<close> uses as a tensor\<close>
  "as_tensor v = (case v of Some (Tensor s) \<Rightarrow> Inr s | _ \<Rightarrow> Inl TypeError)"

definition as_optional_tensor :: "pyval option \<Rightarrow> py_error + tshape option" where
  \<comment> \<open>a keyword argument of \<^verbatim>\<open>generative\<close> with default \<^verbatim>\<open>None\<close>\<close>
  "as_optional_tensor v =
     (case v of
        None \<Rightarrow> Inr None
      | Some PyNone \<Rightarrow> Inr None
      | Some (Tensor s) \<Rightarrow> Inr (Some s)
      | _ \<Rightarrow> Inl TypeError)"

definition get_generative_input ::
  "collaborators \<Rightarrow> (string \<rightharpoonup> pyval) \<Rightarrow> (string \<rightharpoonup> pyval) \<Rightarrow> py_error + (string \<rightharpoonup> pyval)" where
  \<comment> \<open>\<^verbatim>\<open>WVAE._get_generative_input\<close>\<close>
  "get_generative_input nets tensors inference_outputs =
     bind_err (base_get_generative_input nets tensors inference_outputs) (\<lambda>res.
     bind_err (getitem tensors (x_key nets)) (\<lambda>x.
     Inr (res(''x'' \<mapsto> x))))"

definition generative_kwargs ::
  "wvae \<Rightarrow> collaborators \<Rightarrow> (string \<rightharpoonup> pyval) \<Rightarrow> py_error + (string \<rightharpoonup> pyval)" where
  \<comment> \<open>\<^verbatim>\<open>self.generative(**gen_ins)\<close>: the four required arguments must be present and
      every key must be a parameter of \<^verbatim>\<open>generative\<close>\<close>
  "generative_kwargs self nets gen_ins =
     (if \<not> {''z'', ''library'', ''batch_index'', ''x''} \<subseteq> dom gen_ins
         \<or> \<not> dom gen_ins \<subseteq> {''z'', ''library'', ''batch_index'', ''x'', ''cont_covs'', ''cat_covs'',
                               ''size_factor'', ''y'', ''return_densities'', ''transform_batch''}
      then Inl TypeError
      else
        bind_err (as_tensor (gen_ins ''z'')) (\<lambda>z.
        bind_err (as_tensor (gen_ins ''library'')) (\<lambda>library.
        bind_err (as_tensor (gen_ins ''batch_index'')) (\<lambda>batch_index.
        bind_err (as_tensor (gen_ins ''x'')) (\<lambda>x.
        bind_err (as_optional_tensor (gen_ins ''cont_covs'')) (\<lambda>cont_covs.
        bind_err (as_optional_tensor (gen_ins ''cat_covs'')) (\<lambda>cat_covs.
        bind_err (as_optional_tensor (gen_ins ''y'')) (\<lambda>y.
        generative self nets z library batch_index x cont_covs cat_covs y))))))))"

definition estimate_likelihood ::
  "wvae \<Rightarrow> collaborators \<Rightarrow> (string \<rightharpoonup> pyval) \<Rightarrow> (string \<rightharpoonup> pyval) \<Rightarrow> py_error + tshape" where
  "estimate_likelihood self nets tensors inference_outputs =
     bind_err (get_generative_input nets tensors inference_outputs) (\<lambda>gen_ins.
     bind_err (generative_kwargs self nets gen_ins) (\<lambda>outs.
     bind_err (getitem outs ''px'') (\<lambda>px.
     bind_err (getitem tensors ''x'') (\<lambda>x.
     case (px, x) of
       (Dist b, Tensor v) \<Rightarrow> log_prob b v
     | _ \<Rightarrow> Inl (AttributeError ''log_prob'')))))"

subsection \<open>The particle dimension, and collaborators for examples\<close>

text \<open>
  The leading dimensions that \<open>P\<close> particles add to a tensor: none when \<open>P = 1\<close>, one of
  size \<open>P\<close> otherwise.
\<close>

definition particle_dims :: "nat \<Rightarrow> tshape" where
  "particle_dims P = (if P = 1 then [] else [P])"

text \<open>
  What the theorems assume of the collaborators, whenever they return: the encoders give
  distributions over (cells, latent dimension) and (cells, 1), the decoder gives a rate
  with one row of genes for every row of its input, the reconstruction loss sums the
  genes out, and the library prior has one mean and one variance for each cell.
\<close>

definition shape_contract :: "wvae \<Rightarrow> collaborators \<Rightarrow> nat \<Rightarrow> bool" where
  "shape_contract self nets latent \<longleftrightarrow>
     (\<forall>e b c q. z_encoder nets e b c = Inr q \<longrightarrow> q = [hd e, latent])
   \<and> (\<forall>e b c q. l_encoder nets e b c = Inr q \<longrightarrow> q = [hd e, 1])
   \<and> (\<forall>d di l b c y sc r ra dr. decoder nets d di l b c y = Inr (sc, r, ra, dr) \<longrightarrow>
          ra = Tensor (butlast di @ [n_input self]))
   \<and> (\<forall>x s r d v. get_reconstruction_loss nets x (Tensor s) r d = Inr v \<longrightarrow> v = butlast s)
   \<and> (\<forall>b m v. compute_local_library_params nets b = Inr (m, v) \<longrightarrow>
          m = [hd b, 1] \<and> v = [hd b, 1])"

text \<open>
  Collaborators for the examples, with the shapes of the scVI networks: a decoder whose
  rate is the scale times the exponential of the library, a negative-binomial
  reconstruction loss summed over genes, and the input dictionary of the base class.
\<close>

definition example_nets :: "nat \<Rightarrow> nat \<Rightarrow> collaborators" where
  "example_nets latent genes =
     \<lparr>z_encoder = (\<lambda>e b c. Inr [hd e, latent]),
      l_encoder = (\<lambda>e b c. Inr [hd e, 1]),
      decoder = (\<lambda>d di l b c y.
        bind_err (broadcast l (butlast di @ [genes])) (\<lambda>ra.
        if ra = butlast di @ [genes]
        then Inr (Tensor (butlast di @ [genes]), PyNone, Tensor ra, Tensor (butlast di @ [genes]))
        else Inl RuntimeError)),
      compute_local_library_params = (\<lambda>b. Inr ([hd b, 1], [hd b, 1])),
      get_reconstruction_loss = (\<lambda>x ra r d.
        case ra of
          Tensor s \<Rightarrow> bind_err (broadcast x s) (\<lambda>v. if v = s then Inr (butlast s) else Inl RuntimeError)
        | _ \<Rightarrow> Inl TypeError),
      one_hot_linear = (\<lambda>i. Inr [hd i, genes]),
      base_get_generative_input = (\<lambda>tensors inference_outputs.
        bind_err (getitem inference_outputs ''z'') (\<lambda>z.
        bind_err (getitem inference_outputs ''library'') (\<lambda>library.
        bind_err (getitem tensors ''batch'') (\<lambda>batch_index.
        bind_err (getitem tensors ''labels'') (\<lambda>y.
        Inr [''z'' \<mapsto> z, ''library'' \<mapsto> library, ''batch_index'' \<mapsto> batch_index,
             ''y'' \<mapsto> y, ''cont_covs'' \<mapsto> PyNone, ''cat_covs'' \<mapsto> PyNone,
             ''size_factor'' \<mapsto> PyNone]))))),
      x_key = ''X''\<rparr>"

definition cfg_lib :: "nat \<Rightarrow> bool \<Rightarrow> wvae" where
  "cfg_lib P observed = \<lparr>n_input = 3, n_particles = P, loss_type = ''IWELBO'', dispersion = ''gene'',
                encode_covariates = False, use_observed_lib_size = observed\<rparr>"

text \<open>The entry of a returned dictionary, if the call returned.\<close>

definition output_of :: "py_error + (string \<rightharpoonup> pyval) \<Rightarrow> string \<Rightarrow> pyval option" where
  "output_of r k = (case r of Inl e \<Rightarrow> None | Inr d \<Rightarrow> d k)"

section \<open>The posterior expected FDR procedure\<close>

text \<open>
  A pandas \<^verbatim>\<open>Series\<close> is its rows in position order, each an index label and a value;
  a \<^verbatim>\<open>DataFrame\<close> is rows of several values. Their \<^verbatim>\<open>ndim\<close> is 1 and 2.
\<close>

type_synonym ('l, 'v) series = "('l \<times> 'v) list"

datatype ('l, 'f) pandas = Series "('l, 'f) series" | DataFrame "('l \<times> 'f list) list"

fun pd_ndim :: "('l, 'f) pandas \<Rightarrow> nat" where
  "pd_ndim (Series _) = 1"
| "pd_ndim (DataFrame _) = 2"

text \<open>
  The probabilities and the threshold are float64 numbers. Their arithmetic is a
  parameter of the model: the operations that the procedure uses, on a type \<open>'f\<close> of
  floats. Nothing is assumed of them; in particular sums and quotients may round.
\<close>

record 'f float_ops =
  fsub :: "'f \<Rightarrow> 'f \<Rightarrow> 'f"
  fadd :: "'f \<Rightarrow> 'f \<Rightarrow> 'f"
  fdiv :: "'f \<Rightarrow> 'f \<Rightarrow> 'f"
  fle :: "'f \<Rightarrow> 'f \<Rightarrow> bool"
  fone :: 'f
  of_index :: "nat \<Rightarrow> 'f"
    \<comment> \<open>the float of an integer of \<^verbatim>\<open>np.arange\<close>\<close>

fun cumsum_from :: "'f float_ops \<Rightarrow> 'f \<Rightarrow> 'f list \<Rightarrow> 'f list" where
  "cumsum_from ops acc [] = []"
| "cumsum_from ops acc (x # xs) = fadd ops acc x # cumsum_from ops (fadd ops acc x) xs"

definition cumsum :: "'f float_ops \<Rightarrow> 'f list \<Rightarrow> 'f list" where
  \<comment> \<open>\<^verbatim>\<open>s.cumsum()\<close>: the first entry, then each sum of the previous sum and an entry\<close>
  "cumsum ops xs = (case xs of [] \<Rightarrow> [] | x # xs' \<Rightarrow> x # cumsum_from ops x xs')"

fun insert_desc :: "'f float_ops \<Rightarrow> 'l \<times> 'f \<Rightarrow> ('l, 'f) series \<Rightarrow> ('l, 'f) series" where
  "insert_desc ops x [] = [x]"
| "insert_desc ops x (y # ys) =
     (if fle ops (snd y) (snd x) then x # y # ys else y # insert_desc ops x ys)"

definition sort_values_desc :: "'f float_ops \<Rightarrow> ('l, 'f) series \<Rightarrow> ('l, 'f) series" where
  \<comment> \<open>one \<^verbatim>\<open>sort_values(ascending=False)\<close>: a stable insertion sort by descending value\<close>
  "sort_values_desc ops s = foldr (insert_desc ops) s []"

definition loc_labels :: "('l, 'v) series \<Rightarrow> 'l list \<Rightarrow> ('l, 'v) series" where
  \<comment> \<open>\<^verbatim>\<open>s.loc[labels]\<close> for labels that all occur in the index of \<open>s\<close>: for each label
      in turn, the rows of \<open>s\<close> that carry it\<close>
  "loc_labels s labels = concat (map (\<lambda>l. filter (\<lambda>(l', v). l' = l) s) labels)"

definition cumulative_fdr_of :: "'f float_ops \<Rightarrow> ('l, 'f) series \<Rightarrow> 'f list" where
  \<comment> \<open>\<^verbatim>\<open>(1.0 - sorted_pgs).cumsum() / (1.0 + np.arange(len(sorted_pgs)))\<close>\<close>
  "cumulative_fdr_of ops sorted_pgs =
     map2 (fdiv ops) (cumsum ops (map (\<lambda>(l, p). fsub ops (fone ops) p) sorted_pgs))
                     (map (\<lambda>i. fadd ops (fone ops) (of_index ops i)) [0..<length sorted_pgs])"

definition fdr_de_prediction ::
  "(('l, 'f) series \<Rightarrow> ('l, 'f) series) \<Rightarrow> 'f float_ops \<Rightarrow> ('l, 'f) pandas \<Rightarrow> 'f
     \<Rightarrow> py_error + ('l, bool) series" where
  \<comment> \<open>\<^verbatim>\<open>_fdr_de_prediction\<close>, with the sorting routine of pandas as the parameter \<open>srt\<close>\<close>
  "fdr_de_prediction srt ops posterior_probas fdr =
     (case posterior_probas of
        DataFrame _ \<Rightarrow> Inl (ValueError ''posterior_probas should be 1-dimensional'')
      | Series s \<Rightarrow>
          let original_index = map fst s;
              sorted_pgs = srt s;
              cumulative_fdr = cumulative_fdr_of ops sorted_pgs;
              d = length (filter (\<lambda>c. fle ops c fdr) cumulative_fdr);
              is_pred_de = zip (map fst sorted_pgs)
                             (replicate d True @ replicate (length cumulative_fdr - d) False)
          in Inr (loc_labels is_pred_de original_index))"

subsection \<open>Exact arithmetic, and the procedure as the specification words it\<close>

text \<open>
  The operations on real numbers, without rounding: an idealisation of float64, used
  only where a lemma says so.
\<close>

definition exact_ops :: "real float_ops" where
  "exact_ops = \<lparr>fsub = (-), fadd = (+), fdiv = (/), fle = (\<le>), fone = 1, of_index = real\<rparr>"

text \<open>
  For genes sorted by descending probability, the cumulative expected FDR at rank \<open>k\<close>
  (counted from 1) is the sum of \<open>1 - p\<close> over the first \<open>k\<close> genes divided by \<open>k\<close>; the
  cutoff is the largest rank whose cumulative expected FDR does not exceed the threshold,
  and 0 when there is none.
\<close>

definition expected_fdr :: "('l, real) series \<Rightarrow> nat \<Rightarrow> real" where
  "expected_fdr sorted_pgs k = (\<Sum>i<k. 1 - snd (sorted_pgs ! i)) / real k"

definition fdr_cutoff :: "('l, real) series \<Rightarrow> real \<Rightarrow> nat" where
  "fdr_cutoff sorted_pgs fdr =
     Max (set (0 # filter (\<lambda>k. expected_fdr sorted_pgs k \<le> fdr) [1..<Suc (length sorted_pgs)]))"

section \<open>Differential expression: population masks and the obs table\<close>

text \<open>
  The \<^verbatim>\<open>obs\<close> table of an \<^verbatim>\<open>AnnData\<close> is its columns in order, each a name and one
  string for every cell.
\<close>

type_synonym obs_table = "(string \<times> string list) list"

record adata =
  obs :: obs_table
  shape0 :: nat
    \<comment> \<open>\<^verbatim>\<open>adata.shape[0]\<close>, the number of cells\<close>

definition obs_columns :: "adata \<Rightarrow> string list" where
  "obs_columns a = map fst (obs a)"

definition get_column :: "obs_table \<Rightarrow> string \<Rightarrow> py_error + string list" where
  \<comment> \<open>\<^verbatim>\<open>obs[key]\<close>\<close>
  "get_column t key = (case map_of t key of None \<Rightarrow> Inl (KeyError key) | Some c \<Rightarrow> Inr c)"

definition set_column :: "obs_table \<Rightarrow> string \<Rightarrow> string list \<Rightarrow> obs_table" where
  \<comment> \<open>\<^verbatim>\<open>obs[key] = col\<close>: an existing column is overwritten in place, a new one is appended\<close>
  "set_column t key col =
     (if key \<in> fst ` set t then map (\<lambda>(k, c). if k = key then (k, col) else (k, c)) t
      else t @ [(key, col)])"

definition del_column :: "obs_table \<Rightarrow> string \<Rightarrow> py_error + obs_table" where
  \<comment> \<open>\<^verbatim>\<open>del obs[key]\<close>\<close>
  "del_column t key =
     (if key \<in> fst ` set t then Inr (filter (\<lambda>(k, c). k \<noteq> key) t) else Inl (KeyError key))"

subsection \<open>\_prepare\_obs\<close>

text \<open>
  A population identifier is a boolean mask, a list of integer positions, or a query
  string; \<^verbatim>\<open>ravel_idx\<close> turns the first two into flat numpy arrays and a query into the
  boolean mask of the rows that the query selects. The evaluation of a query by pandas
  is the parameter \<open>query\<close>.
\<close>

datatype population = BoolMask "bool list" | Positions "int list" | Query string

datatype np_index = BoolArr "bool list" | IntArr "int list"

definition ravel_idx :: "(string \<Rightarrow> py_error + bool list) \<Rightarrow> population \<Rightarrow> py_error + np_index" where
  "ravel_idx query my_idx =
     (case my_idx of
        Query q \<Rightarrow> bind_err (query q) (\<lambda>m. Inr (BoolArr m))
      | BoolMask m \<Rightarrow> Inr (BoolArr m)
      | Positions ps \<Rightarrow> Inr (IntArr ps))"

definition position :: "nat \<Rightarrow> int \<Rightarrow> nat" where
  \<comment> \<open>a negative position counts from the end\<close>
  "position n i = nat (if i < 0 then int n + i else i)"

definition np_setitem :: "string list \<Rightarrow> np_index \<Rightarrow> string \<Rightarrow> py_error + string list" where
  \<comment> \<open>\<^verbatim>\<open>arr[idx] = value\<close>\<close>
  "np_setitem arr idx val =
     (case idx of
        BoolArr m \<Rightarrow>
          if length m = length arr then Inr (map2 (\<lambda>b c. if b then val else c) m arr)
          else Inl IndexError
      | IntArr ps \<Rightarrow>
          if \<forall>i\<in>set ps. - int (length arr) \<le> i \<and> i < int (length arr)
          then Inr (fold (\<lambda>i a. a[position (length arr) i := val]) ps arr)
          else Inl IndexError)"

definition np_selected :: "np_index \<Rightarrow> nat" where
  \<comment> \<open>\<^verbatim>\<open>arr[idx].shape[0]\<close>, for an index that \<^verbatim>\<open>arr\<close> accepts\<close>
  "np_selected idx = (case idx of BoolArr m \<Rightarrow> length (filter id m) | IntArr ps \<Rightarrow> length ps)"

definition prepare_obs ::
  "(string \<Rightarrow> py_error + bool list) \<Rightarrow> population \<Rightarrow> population option \<Rightarrow> adata
     \<Rightarrow> py_error + (string list \<times> string list \<times> string option)" where
  "prepare_obs query idx1 idx2 adata =
     bind_err (ravel_idx query idx1) (\<lambda>idx1'.
     let g1_key = ''one'';
         obs_col = replicate (shape0 adata) ''None'' in
     bind_err (np_setitem obs_col idx1' g1_key) (\<lambda>obs_col.
     let group1 = [g1_key];
         group2 = (case idx2 of None \<Rightarrow> None | Some _ \<Rightarrow> Some ''two'') in
     bind_err (case idx2 of
                 None \<Rightarrow> Inr (obs_col, None)
               | Some i2 \<Rightarrow>
                   bind_err (ravel_idx query i2) (\<lambda>idx2'.
                   bind_err (np_setitem obs_col idx2' ''two'') (\<lambda>obs_col.
                   Inr (obs_col, Some idx2')))) (\<lambda>(obs_col, idx2').
     if np_selected idx1' = 0 \<or> (case idx2' of None \<Rightarrow> 1 | Some i \<Rightarrow> np_selected i) = 0
     then Inl (ValueError ''One of idx1 or idx2 has size zero.'')
     else Inr (obs_col, group1, group2))))"

text \<open>Whether an index array selects cell \<open>i\<close> of \<open>n\<close> cells.\<close>

definition selects :: "np_index \<Rightarrow> nat \<Rightarrow> nat \<Rightarrow> bool" where
  "selects idx n i =
     (case idx of
        BoolArr m \<Rightarrow> i < length m \<and> m ! i
      | IntArr ps \<Rightarrow> i \<in> position n ` set ps)"

subsection \<open>\_de\_core\<close>

text \<open>
  The \<^verbatim>\<open>group1\<close> argument: \<^verbatim>\<open>None\<close>, one label, or a list of labels.
\<close>

datatype group_arg = GroupNone | GroupLabel string | GroupList "string list"

text \<open>
  One table of the result, with the comparison, group-1 and group-2 columns that are
  added when the groups were not given by masks.
\<close>

record 'r de_table =
  table :: 'r
  comparison :: "(string \<times> string \<times> string) option"

text \<open>
  The loop over the first-group labels. The work on one pair of populations (the Bayes
  factors of \<^verbatim>\<open>DifferentialComputation\<close>, the summary statistics, the sorted table
  and its FDR flag) is the parameter \<open>per_group\<close>; it reads the two cell masks and does
  not write the obs table.
\<close>

fun de_loop ::
  "(string \<Rightarrow> bool list \<Rightarrow> bool list \<Rightarrow> py_error + 'r) \<Rightarrow> bool \<Rightarrow> obs_table \<Rightarrow> string
     \<Rightarrow> string option \<Rightarrow> string list \<Rightarrow> py_error + 'r de_table list" where
  "de_loop per_group annotate t groupby group2 [] = Inr []"
| "de_loop per_group annotate t groupby group2 (g1 # gs) =
     bind_err (get_column t groupby) (\<lambda>col.
     let cell_idx1 = map (\<lambda>v. v = g1) col;
         cell_idx2 = (case group2 of
                        None \<Rightarrow> map Not cell_idx1
                      | Some g \<Rightarrow> map (\<lambda>v. v = g) col) in
     bind_err (per_group g1 cell_idx1 cell_idx2) (\<lambda>res.
     let g2 = (case group2 of None \<Rightarrow> ''Rest'' | Some g \<Rightarrow> g);
         row = \<lparr>table = res,
                comparison = (if annotate then Some (g1 @ '' vs '' @ g2, g1, g2) else None)\<rparr> in
     bind_err (de_loop per_group annotate t groupby group2 gs) (\<lambda>rest.
     Inr (row # rest))))"

definition temp_key :: string where
  "temp_key = ''_scvi_temp_de''"

definition de_core ::
  "(string \<Rightarrow> py_error + bool list) \<Rightarrow> (string \<Rightarrow> bool list \<Rightarrow> bool list \<Rightarrow> py_error + 'r)
     \<Rightarrow> adata \<Rightarrow> string \<Rightarrow> group_arg \<Rightarrow> string option \<Rightarrow> population option
     \<Rightarrow> population option \<Rightarrow> (py_error + 'r de_table list) \<times> adata" where
  \<comment> \<open>the result or the exception, and the \<^verbatim>\<open>AnnData\<close> as the call leaves it\<close>
  "de_core query per_group adata groupby group1 group2 idx1 idx2 =
     (case (if group1 = GroupNone \<and> idx1 = None then
              bind_err (get_column (obs adata) groupby) (\<lambda>col.
              let categories = sort (remdups col) in
              if length categories = 1
              then Inl (ValueError ''Only a single group in the data.'')
              else Inr categories)
            else Inr (case group1 of
                        GroupList gs \<Rightarrow> gs
                      | GroupLabel g \<Rightarrow> [g]
                      | GroupNone \<Rightarrow> [])) of
        Inl e \<Rightarrow> (Inl e, adata)
      | Inr group1 \<Rightarrow>
          (case (case idx1 of
                   None \<Rightarrow> Inr (adata, groupby, group1, group2)
                 | Some i1 \<Rightarrow>
                     bind_err (prepare_obs query i1 idx2 adata) (\<lambda>(obs_col, group1, group2).
                     Inr (adata\<lparr>obs := set_column (obs adata) temp_key obs_col\<rparr>,
                          temp_key, group1, group2))) of
             Inl e \<Rightarrow> (Inl e, adata)
           | Inr (adata, groupby, group1, group2) \<Rightarrow>
               (case de_loop per_group (idx1 = None) (obs adata) groupby group2 group1 of
                  Inl e \<Rightarrow> (Inl e, adata)
                | Inr df_results \<Rightarrow>
                    (case (if idx1 \<noteq> None then del_column (obs adata) temp_key
                           else Inr (obs adata)) of
                       Inl e \<Rightarrow> (Inl e, adata)
                     | Inr t \<Rightarrow>
                         (if df_results = [] then Inl (ValueError ''No objects to concatenate'')
                          else Inr df_results,
                          adata\<lparr>obs := t\<rparr>)))))"

text \<open>Four cells in two batches, and collaborators that always succeed, for examples.\<close>

definition example_adata :: adata where
  "example_adata = \<lparr>obs = [(''batch'', [''a'', ''a'', ''b'', ''b''])], shape0 = 4\<rparr>"

definition no_query :: "string \<Rightarrow> py_error + bool list" where
  "no_query q = Inl (ValueError q)"

definition count_cells :: "string \<Rightarrow> bool list \<Rightarrow> bool list \<Rightarrow> py_error + (nat \<times> nat)" where
  "count_cells g cell_idx1 cell_idx2 = Inr (length (filter id cell_idx1), length (filter id cell_idx2))"

section \<open>The train runner: merging the training history\<close>

text \<open>
  The history of one metric is a pandas frame: its rows in order, each an integer index
  and a value, and the name of its index. A history is a Python dict from metric names to
  such frames, kept as its items in insertion order.
\<close>

record metric_frame =
  rows :: "(int \<times> real) list"
  index_name :: "string option"

type_synonym history_dict = "(string \<times> metric_frame) list"

text \<open>
  \<^verbatim>\<open>model.history_\<close> is a dict or something else (\<^verbatim>\<open>None\<close> before the first fit,
  or when the logger had no history).
\<close>

datatype stored_history = HistoryDict history_dict | NotADict

text \<open>
  What \<^verbatim>\<open>_update_history\<close> reads and writes: the flag \<^verbatim>\<open>is_trained_\<close> and the
  attribute \<^verbatim>\<open>history_\<close> of the model (here \<open>is_trained\<close> and \<open>model_history\<close>),
  the \<^verbatim>\<open>history\<close> attribute of the trainer's logger (absent for loggers that keep
  none), the attribute \<^verbatim>\<open>history_\<close> that the runner sets on itself, and the warnings
  issued. A runner builds its own trainer, so the dict of its logger is an object
  different from the dict that the model stores after an earlier fit.
\<close>

record runner =
  is_trained :: bool
  model_history :: stored_history
  logger_history :: "history_dict option"
  runner_history :: "unit option option"
  warnings :: "string list"

definition dict_setitem :: "('k \<times> 'v) list \<Rightarrow> 'k \<Rightarrow> 'v \<Rightarrow> ('k \<times> 'v) list" where
  \<comment> \<open>\<^verbatim>\<open>d[key] = v\<close>\<close>
  "dict_setitem d key v =
     (if key \<in> fst ` set d then map (\<lambda>(k, w). if k = key then (k, v) else (k, w)) d
      else d @ [(key, v)])"

definition arange :: "nat \<Rightarrow> nat \<Rightarrow> int list" where
  \<comment> \<open>\<^verbatim>\<open>np.arange(a, b)\<close>\<close>
  "arange a b = map int [a..<b]"

definition set_index :: "metric_frame \<Rightarrow> int list \<Rightarrow> metric_frame" where
  \<comment> \<open>\<^verbatim>\<open>frame.index = index\<close>, for an index as long as the frame\<close>
  "set_index f index = f\<lparr>rows := zip index (map snd (rows f))\<rparr>"

definition concat_frames :: "metric_frame \<Rightarrow> metric_frame \<Rightarrow> metric_frame" where
  \<comment> \<open>\<^verbatim>\<open>pd.concat([a, b])\<close>; the index keeps its name only when both have the same\<close>
  "concat_frames a b =
     \<lparr>rows = rows a @ rows b,
      index_name = (if index_name a = index_name b then index_name a else None)\<rparr>"

definition continue_index :: "metric_frame \<Rightarrow> metric_frame \<Rightarrow> metric_frame" where
  \<comment> \<open>the frame of the logger after \<^verbatim>\<open>new_history[key].index = index\<close>\<close>
  "continue_index val new =
     (let prev_len = length (rows val);
          new_len = length (rows new);
          index = arange prev_len (prev_len + new_len)
      in set_index new index)"

definition merge_frames :: "metric_frame \<Rightarrow> metric_frame \<Rightarrow> metric_frame" where
  \<comment> \<open>\<^verbatim>\<open>pd.concat([val, new_history[key]])\<close> of the re-indexed frame, then the name of the
      index set to that of \<^verbatim>\<open>val\<close>\<close>
  "merge_frames val new' = (concat_frames val new')\<lparr>index_name := index_name val\<rparr>"

text \<open>
  The loop over the items of \<^verbatim>\<open>model.history_\<close>: \<open>items\<close> are the items still to
  visit, \<open>h\<close> is the dict of the model and \<open>new_history\<close> the dict of the logger, both as
  the loop has changed them so far.
\<close>

fun merge_loop :: "history_dict \<Rightarrow> history_dict \<Rightarrow> history_dict \<Rightarrow> history_dict \<times> history_dict" where
  "merge_loop [] h new_history = (h, new_history)"
| "merge_loop ((key, val) # items) h new_history =
     (case map_of new_history key of
        None \<Rightarrow> merge_loop items h new_history
      | Some new \<Rightarrow>
          merge_loop items
            (dict_setitem h key (merge_frames val (continue_index val new)))
            (dict_setitem new_history key (continue_index val new)))"

definition update_history :: "runner \<Rightarrow> py_error + runner" where
  "update_history self =
     (if is_trained self then
        (case model_history self of
           NotADict \<Rightarrow>
             Inr (self\<lparr>warnings := warnings self @
               [''Training history cannot be updated. Logger can be accessed from model.trainer.logger'']\<rparr>)
         | HistoryDict h \<Rightarrow>
             (case logger_history self of
                None \<Rightarrow> Inl (AttributeError ''history'')
              | Some new_history \<Rightarrow>
                  (case merge_loop h h new_history of
                     (h', new_history') \<Rightarrow>
                       Inr (self\<lparr>model_history := HistoryDict h',
                                 logger_history := Some new_history'\<rparr>))))
      else
        (case logger_history self of
           Some new_history \<Rightarrow> Inr (self\<lparr>model_history := HistoryDict new_history\<rparr>)
         | None \<Rightarrow> Inr (self\<lparr>runner_history := Some None\<rparr>)))"

subsection \<open>The merge as the specification words it\<close>

text \<open>
  The rows of the second fit appended to the rows of the first fit, with integer indices
  that continue from the number of rows of the first fit.
\<close>

definition appended :: "metric_frame \<Rightarrow> metric_frame \<Rightarrow> metric_frame" where
  "appended first second =
     \<lparr>rows = rows first @
              map (\<lambda>i. (int (length (rows first) + i), snd (rows second ! i)))
                [0..<length (rows second)],
      index_name = index_name first\<rparr>"

text \<open>A model after a first fit of two epochs, and the logger of a second fit.\<close>

definition first_fit :: history_dict where
  "first_fit =
     [(''elbo_train'', \<lparr>rows = [(0, 10), (1, 8)], index_name = Some ''epoch''\<rparr>),
      (''elbo_validation'', \<lparr>rows = [(0, 11), (1, 9)], index_name = Some ''epoch''\<rparr>)]"

definition second_fit :: history_dict where
  "second_fit =
     [(''elbo_train'', \<lparr>rows = [(0, 7), (1, 6), (2, 5)], index_name = Some ''epoch''\<rparr>),
      (''kl_weight'', \<lparr>rows = [(0, 1), (1, 1), (2, 1)], index_name = Some ''epoch''\<rparr>)]"

definition trained_runner :: "stored_history \<Rightarrow> history_dict option \<Rightarrow> runner" where
  "trained_runner h l =
     \<lparr>is_trained = True, model_history = h, logger_history = l, runner_history = None,
      warnings = []\<rparr>"

section \<open>Tensor lemmas\<close>

lemma length_indices: "length (indices s) = prod_list s"
  by (induction s) (simp_all add: length_concat comp_def sum_list_triv)

lemma broadcast_rev_same: "broadcast_rev s s = Some s"
  by (induction s) simp_all

lemma broadcast_shapes_same: "broadcast_shapes s s = Some s"
  by (simp add: broadcast_shapes_def broadcast_rev_same)

lemma indices_bound: "idx \<in> set (indices s) \<Longrightarrow> list_all2 (<) idx s"
  by (induction s arbitrary: idx) auto

lemma clamp_id: "list_all2 (<) idx s \<Longrightarrow> map2 (\<lambda>d i. if d = 1 then 0 else i) s idx = (idx :: nat list)"
  by (induction idx s rule: list_all2_induct) auto

lemma concat_blocks: "concat (map (\<lambda>i. map (\<lambda>k. i * n + k) [0..<n]) [0..<d]) = [0..<d * n]"
proof (induction d)
  case 0 show ?case by simp
next
  case (Suc d)
  have m: "map (\<lambda>k. d * n + k) [0..<n] = [d * n..<d * n + n]"
    using map_add_upt [of "d * n" n] by (simp add: add.commute)
  have "concat (map (\<lambda>i. map (\<lambda>k. i * n + k) [0..<n]) [0..<Suc d]) =
        [0..<d * n] @ [d * n..<d * n + n]"
    using Suc m by simp
  also have "\<dots> = [0..<d * n + n]"
    using upt_add_eq_append [of 0 "d * n" n] by simp
  also have "d * n + n = Suc d * n" by simp
  finally show ?case .
qed

lemma offset_indices: "map (offset s) (indices s) = [0..<prod_list s]"
proof (induction s)
  case Nil show ?case by simp
next
  case (Cons d ds)
  have "map (offset (d # ds)) (indices (d # ds)) =
        concat (map (\<lambda>i. map (\<lambda>k. i * prod_list ds + k) (map (offset ds) (indices ds))) [0..<d])"
    by (simp add: map_concat comp_def)
  also have "\<dots> = [0..<d * prod_list ds]"
    by (simp only: Cons.IH concat_blocks)
  finally show ?case by simp
qed

lemma tbinop_same_shape:
  assumes "shape a = shape b" "wf_tensor a" "wf_tensor b"
  shows "tbinop f a b = Inr \<lparr>shape = shape a, data = map2 f (data a) (data b)\<rparr>"
proof -
  let ?s = "shape a"
  have rd: "bread t idx = data t ! offset ?s idx" if "idx \<in> set (indices ?s)" "shape t = ?s" for t idx
  proof -
    from that have l: "list_all2 (<) idx (shape t)" by (simp add: indices_bound)
    then have "length idx = ndim t" by (simp add: ndim_def list_all2_lengthD)
    with l that show ?thesis by (simp add: bread_def clamp_id del: One_nat_def)
  qed
  have "map (\<lambda>idx. f (bread a idx) (bread b idx)) (indices ?s)
        = map (\<lambda>idx. f (data a ! offset ?s idx) (data b ! offset ?s idx)) (indices ?s)"
    using rd assms(1) by (intro map_cong) simp_all
  also have "\<dots> = map (\<lambda>k. f (data a ! k) (data b ! k)) (map (offset ?s) (indices ?s))"
    by (simp add: comp_def)
  also have "\<dots> = map (\<lambda>k. f (data a ! k) (data b ! k)) [0..<prod_list ?s]"
    by (simp only: offset_indices)
  also have "\<dots> = map2 f (data a) (data b)"
    using assms by (intro nth_equalityI) (simp_all add: wf_tensor_def)
  finally show ?thesis
    using assms(1) by (simp add: tbinop_def broadcast_shapes_same)
qed

lemma tbinop_wf: "tbinop f a b = Inr t \<Longrightarrow> wf_tensor t"
  by (auto simp: tbinop_def wf_tensor_def length_indices split: option.splits)

lemma sum_list_upt: "sum_list (map f [0..<n]) = (\<Sum>i<n. f i)"
  by (simp add: interv_sum_list_conv_sum_set_nat atLeast0LessThan)

lemma sum_grid:
  fixes f :: "nat \<Rightarrow> real" and P C :: nat
  shows "(\<Sum>i<P * C. f i) = (\<Sum>p<P. \<Sum>c<C. f (p * C + c))"
proof -
  have "(\<Sum>p<P. \<Sum>c<C. f (p * C + c)) = (\<Sum>p<P. sum f {p * C..<p * C + C})"
  proof (rule sum.cong [OF refl])
    fix p :: nat
    have "sum f {0 + p * C..<C + p * C} = (\<Sum>c = 0..<C. f (c + p * C))"
      by (rule sum.shift_bounds_nat_ivl)
    then show "(\<Sum>c<C. f (p * C + c)) = sum f {p * C..<p * C + C}"
      by (simp add: atLeast0LessThan add.commute)
  qed
  also have "\<dots> = sum f {..<P * C}"
    by (rule sum.nat_group)
  finally show ?thesis by simp
qed

lemma sum_list_grid:
  assumes "length xs = P * C"
  shows "sum_list xs = (\<Sum>p<P. \<Sum>c<C. (xs ! (p * C + c) :: real))"
proof -
  have "sum_list xs = (\<Sum>i<length xs. xs ! i)"
    by (simp add: sum_list_sum_nth atLeast0LessThan)
  then show ?thesis using assms by (simp add: sum_grid)
qed

lemma grid_index: "p < P \<Longrightarrow> c < C \<Longrightarrow> p * C + c < P * (C::nat)"
proof -
  assume a: "p < P" "c < C"
  then have "p * C + c < p * C + C" by simp
  also have "\<dots> = Suc p * C" by simp
  also have "\<dots> \<le> P * C" using a(1) by (intro mult_le_mono1) simp
  finally show ?thesis .
qed

lemma column_matrix:
  "shape t = [P, C] \<Longrightarrow> column t j = map (\<lambda>q. data t ! (q * C + j)) [0..<P]"
  by (simp add: column_def)

lemma elbo_value:
  assumes "shape lr = [P, C]" "wf_tensor lr"
  shows "- tmean lr = spec_elbo lr"
  using assms sum_list_grid [of "data lr" P C]
  by (simp add: tmean_def spec_elbo_def entry_def wf_tensor_def)

lemma iwelbo_value:
  assumes s: "shape lr = [P, C]" and wf: "wf_tensor lr"
  shows "\<exists>w. tmul (detach (softmax_dim0 lr)) lr = Inr w \<and> - tmean (sum_dim0 w) = spec_iwelbo lr"
proof -
  let ?sm = "softmax_dim0 lr"
  have len: "length (data lr) = P * C" using s wf by (simp add: wf_tensor_def)
  have wfsm: "wf_tensor ?sm" "shape ?sm = shape lr"
    using wf by (simp_all add: softmax_dim0_def wf_tensor_def)
  define w where "w = \<lparr>shape = shape lr, data = map2 (*) (data ?sm) (data lr)\<rparr>"
  have tm: "tmul (detach ?sm) lr = Inr w"
    using tbinop_same_shape [of ?sm lr "(*)"] wfsm wf by (simp add: tmul_def detach_def w_def)
  have lsm: "length (data ?sm) = P * C" using len by (simp add: softmax_dim0_def)
  have den: "sum_list (map exp (column lr c)) = (\<Sum>q<P. exp (entry lr q c))" for c
    using s by (simp add: column_matrix comp_def sum_list_upt entry_def)
  have ent: "data w ! (p * C + c) = spec_weight lr p c * entry lr p c" if "p < P" "c < C" for p c
  proof -
    have i: "p * C + c < P * C" using that by (rule grid_index)
    have "(p * C + c) mod C = c" using that by simp
    then have "data ?sm ! (p * C + c) = spec_weight lr p c"
      using i len s den by (simp add: softmax_dim0_def spec_weight_def entry_def)
    then show ?thesis using i len lsm by (simp add: w_def entry_def s)
  qed
  have "tmean (sum_dim0 w) = (\<Sum>c<C. \<Sum>p<P. data w ! (p * C + c)) / real C"
    using s by (simp add: tmean_def sum_dim0_def w_def column_def sum_list_upt comp_def)
  also have "(\<Sum>c<C. \<Sum>p<P. data w ! (p * C + c)) = (\<Sum>c<C. \<Sum>p<P. spec_weight lr p c * entry lr p c)"
    by (intro sum.cong refl) (simp add: ent)
  finally have "- tmean (sum_dim0 w) = spec_iwelbo lr"
    using s by (simp add: spec_iwelbo_def)
  with tm show ?thesis by blast
qed

section \<open>Properties of WVAE.loss\<close>

text \<open>
  C1: when the log-ratios \<open>log_pjoint - log_qjoint\<close> are a matrix of \<open>P\<close> particles by
  \<open>C\<close> cells, the loss operation returns, in ELBO mode, the negative mean of all entries
  of the matrix, and in IWELBO mode, the negative mean over cells of the sum over
  particles of the softmax weight (taken over the particle axis) times the log-ratio.
  Detaching the weights changes gradients only, not values.
\<close>

theorem loss_elbo_iwelbo:
  assumes "getitem generative_outputs ''log_pjoint'' = Inr log_pjoint"
    and "getitem inference_outputs ''log_qjoint'' = Inr log_qjoint"
    and "getitem generative_outputs ''log_px_latents'' = Inr log_px_latents"
    and "tsub log_pjoint log_qjoint = Inr log_ratios"
    and "shape log_ratios = [P, C]" and "0 < P" and "0 < C"
  shows "(loss_type self = ''ELBO'' \<longrightarrow>
            (\<exists>r. WVAE_loss self tensors inference_outputs generative_outputs kl_weight = Inr r
                 \<and> loss r = spec_elbo log_ratios))
       \<and> (loss_type self = ''IWELBO'' \<longrightarrow>
            (\<exists>r. WVAE_loss self tensors inference_outputs generative_outputs kl_weight = Inr r
                 \<and> loss r = spec_iwelbo log_ratios))"
proof -
  have wf: "wf_tensor log_ratios"
    using assms(4) by (simp add: tsub_def tbinop_wf)
  have nd: "ndim log_ratios = 2" using assms(5) by (simp add: ndim_def)
  have e: "loss_type self = ''ELBO'' \<Longrightarrow> loss_value (loss_type self) log_ratios = Inr (spec_elbo log_ratios)"
    using elbo_value [OF assms(5) wf] by (simp add: loss_value_def)
  obtain w where w: "tmul (detach (softmax_dim0 log_ratios)) log_ratios = Inr w"
      "- tmean (sum_dim0 w) = spec_iwelbo log_ratios"
    using iwelbo_value [OF assms(5) wf] by blast
  have i: "loss_type self = ''IWELBO'' \<Longrightarrow> loss_value (loss_type self) log_ratios = Inr (spec_iwelbo log_ratios)"
    using w by (simp add: loss_value_def bind_err_def)
  show ?thesis
    using assms(1-4) nd e i by (simp add: WVAE_loss_def bind_err_def)
qed


text \<open>The theorem at a 2 by 2 matrix of log-ratios, in both modes.\<close>

theorem loss_elbo_iwelbo_witness:
  "(\<exists>r. WVAE_loss (cfg ''ELBO'') Map.empty
           [''log_qjoint'' \<mapsto> \<lparr>shape = [2, 2], data = [0, 0, 0, 0]\<rparr>]
           [''log_pjoint'' \<mapsto> \<lparr>shape = [2, 2], data = [1, 2, 1, 2]\<rparr>,
            ''log_px_latents'' \<mapsto> \<lparr>shape = [2, 2], data = [1, 2, 1, 2]\<rparr>] 1 = Inr r
        \<and> loss r = spec_elbo \<lparr>shape = [2, 2], data = [1, 2, 1, 2]\<rparr>)
 \<and> (\<exists>r. WVAE_loss (cfg ''IWELBO'') Map.empty
           [''log_qjoint'' \<mapsto> \<lparr>shape = [2, 2], data = [0, 0, 0, 0]\<rparr>]
           [''log_pjoint'' \<mapsto> \<lparr>shape = [2, 2], data = [1, 2, 1, 2]\<rparr>,
            ''log_px_latents'' \<mapsto> \<lparr>shape = [2, 2], data = [1, 2, 1, 2]\<rparr>] 1 = Inr r
        \<and> loss r = spec_iwelbo \<lparr>shape = [2, 2], data = [1, 2, 1, 2]\<rparr>)"
proof -
  let ?lr = "\<lparr>shape = [2, 2], data = [1, 2, 1, 2]\<rparr>"
  let ?qj = "\<lparr>shape = [2, 2], data = [0, 0, 0, 0]\<rparr>"
  let ?inf = "[''log_qjoint'' \<mapsto> ?qj]"
  let ?gen = "[''log_pjoint'' \<mapsto> ?lr, ''log_px_latents'' \<mapsto> ?lr]"
  have h1: "getitem ?gen ''log_pjoint'' = Inr ?lr" by (simp add: getitem_def)
  have h2: "getitem ?inf ''log_qjoint'' = Inr ?qj" by (simp add: getitem_def)
  have h3: "getitem ?gen ''log_px_latents'' = Inr ?lr" by (simp add: getitem_def)
  have h4: "tsub ?lr ?qj = Inr ?lr"
    by (simp add: tsub_def tbinop_def broadcast_shapes_def bread_def ndim_def upt_conv_Cons)
  have h5: "shape ?lr = [2, 2]" by simp
  have h6: "0 < (2::nat)" by simp
  show ?thesis
    using loss_elbo_iwelbo [OF h1 h2 h3 h4 h5 h6 h6,
        of "(cfg ''ELBO'')" Map.empty 1]
      loss_elbo_iwelbo [OF h1 h2 h3 h4 h5 h6 h6,
        of "(cfg ''IWELBO'')" Map.empty 1]
    by (simp add: cfg_def)
qed


lemma loss_example_values:
  "spec_elbo \<lparr>shape = [2, 2], data = [1, 2, 1, 2]\<rparr> = - 3 / 2"
  "spec_iwelbo \<lparr>shape = [2, 2], data = [1, 2, 1, 2]\<rparr> = - 3 / 2"
  by (simp_all add: spec_elbo_def spec_iwelbo_def spec_weight_def entry_def lessThan_Suc
      numeral_2_eq_2)

text \<open>
  C5, as the code has it: the assertion on the number of dimensions comes first, so a
  log-ratio tensor that is not 2-dimensional fails with the assertion error whatever the
  mode; a 2-dimensional one fails with the value error exactly when the mode is neither
  \<^verbatim>\<open>"ELBO"\<close> nor \<^verbatim>\<open>"IWELBO"\<close>, and otherwise the loss returns. The inputs are
  well-formed: the dictionaries hold the tensors that the loss reads, and their shapes
  broadcast.
\<close>

theorem loss_raises:
  assumes "getitem generative_outputs ''log_pjoint'' = Inr log_pjoint"
    and "getitem inference_outputs ''log_qjoint'' = Inr log_qjoint"
    and "getitem generative_outputs ''log_px_latents'' = Inr log_px_latents"
    and "tsub log_pjoint log_qjoint = Inr log_ratios"
  shows "(ndim log_ratios \<noteq> 2 \<longrightarrow>
            WVAE_loss self tensors inference_outputs generative_outputs kl_weight
              = Inl AssertionError)
       \<and> (ndim log_ratios = 2 \<and> loss_type self \<noteq> ''ELBO'' \<and> loss_type self \<noteq> ''IWELBO'' \<longrightarrow>
            WVAE_loss self tensors inference_outputs generative_outputs kl_weight
              = Inl (ValueError (''Unknown loss type '' @ loss_type self)))
       \<and> (ndim log_ratios = 2 \<and> (loss_type self = ''ELBO'' \<or> loss_type self = ''IWELBO'') \<longrightarrow>
            (\<exists>r. WVAE_loss self tensors inference_outputs generative_outputs kl_weight = Inr r))"
proof (intro conjI impI)
  assume "ndim log_ratios \<noteq> 2"
  then show "WVAE_loss self tensors inference_outputs generative_outputs kl_weight
      = Inl AssertionError"
    using assms by (simp add: WVAE_loss_def bind_err_def)
next
  assume "ndim log_ratios = 2 \<and> loss_type self \<noteq> ''ELBO'' \<and> loss_type self \<noteq> ''IWELBO''"
  then show "WVAE_loss self tensors inference_outputs generative_outputs kl_weight
      = Inl (ValueError (''Unknown loss type '' @ loss_type self))"
    using assms by (simp add: WVAE_loss_def bind_err_def loss_value_def)
next
  assume a: "ndim log_ratios = 2 \<and> (loss_type self = ''ELBO'' \<or> loss_type self = ''IWELBO'')"
  have wf: "wf_tensor log_ratios"
    using assms(4) by (simp add: tsub_def tbinop_wf)
  from a have "length (shape log_ratios) = Suc (Suc 0)" by (simp add: ndim_def)
  then obtain P C where s: "shape log_ratios = [P, C]"
    by (auto simp: length_Suc_conv)
  obtain w where "tmul (detach (softmax_dim0 log_ratios)) log_ratios = Inr w"
    using iwelbo_value [OF s wf] by blast
  then have "\<exists>l. loss_value (loss_type self) log_ratios = Inr l"
    using a by (auto simp: loss_value_def bind_err_def)
  then show "\<exists>r. WVAE_loss self tensors inference_outputs generative_outputs kl_weight = Inr r"
    using assms a by (auto simp: WVAE_loss_def bind_err_def)
qed

text \<open>
  The three cases at concrete inputs: a 1-dimensional log-ratio, a matrix with an unknown
  mode, a matrix in IWELBO mode.
\<close>

theorem loss_raises_witness:
  "WVAE_loss (cfg ''IWELBO'') Map.empty
      [''log_qjoint'' \<mapsto> \<lparr>shape = [2], data = [0, 0]\<rparr>]
      [''log_pjoint'' \<mapsto> \<lparr>shape = [2], data = [1, 2]\<rparr>,
       ''log_px_latents'' \<mapsto> \<lparr>shape = [2], data = [1, 2]\<rparr>] 1 = Inl AssertionError
 \<and> WVAE_loss (cfg ''MSE'') Map.empty
      [''log_qjoint'' \<mapsto> \<lparr>shape = [2, 2], data = [0, 0, 0, 0]\<rparr>]
      [''log_pjoint'' \<mapsto> \<lparr>shape = [2, 2], data = [1, 2, 1, 2]\<rparr>,
       ''log_px_latents'' \<mapsto> \<lparr>shape = [2, 2], data = [1, 2, 1, 2]\<rparr>] 1
      = Inl (ValueError ''Unknown loss type MSE'')
 \<and> (\<exists>r. WVAE_loss (cfg ''IWELBO'') Map.empty
      [''log_qjoint'' \<mapsto> \<lparr>shape = [2, 2], data = [0, 0, 0, 0]\<rparr>]
      [''log_pjoint'' \<mapsto> \<lparr>shape = [2, 2], data = [1, 2, 1, 2]\<rparr>,
       ''log_px_latents'' \<mapsto> \<lparr>shape = [2, 2], data = [1, 2, 1, 2]\<rparr>] 1 = Inr r)"
proof -
  let ?v = "\<lparr>shape = [2], data = [1, 2]\<rparr>"
  let ?u = "\<lparr>shape = [2], data = [0, 0]\<rparr>"
  let ?lr = "\<lparr>shape = [2, 2], data = [1, 2, 1, 2]\<rparr>"
  let ?qj = "\<lparr>shape = [2, 2], data = [0, 0, 0, 0]\<rparr>"
  have v: "tsub ?v ?u = Inr ?v"
    by (simp add: tsub_def tbinop_def broadcast_shapes_def bread_def ndim_def upt_conv_Cons)
  have m: "tsub ?lr ?qj = Inr ?lr"
    by (simp add: tsub_def tbinop_def broadcast_shapes_def bread_def ndim_def upt_conv_Cons)
  have g: "getitem [''log_pjoint'' \<mapsto> t, ''log_px_latents'' \<mapsto> t] ''log_pjoint'' = Inr t"
      "getitem [''log_pjoint'' \<mapsto> t, ''log_px_latents'' \<mapsto> t] ''log_px_latents'' = Inr t"
      "getitem [''log_qjoint'' \<mapsto> t] ''log_qjoint'' = Inr t" for t :: tensor
    by (simp_all add: getitem_def)
  show ?thesis
    using loss_raises [OF g(1) [of ?v] g(3) [of ?u] g(2) [of ?v] v, of "cfg ''IWELBO''" Map.empty 1]
      loss_raises [OF g(1) [of ?lr] g(3) [of ?qj] g(2) [of ?lr] m, of "cfg ''MSE''" Map.empty 1]
      loss_raises [OF g(1) [of ?lr] g(3) [of ?qj] g(2) [of ?lr] m, of "cfg ''IWELBO''" Map.empty 1]
    by (simp add: ndim_def cfg_def)
qed

text \<open>
  C5 as the claim words it fails: with an unknown mode and a 1-dimensional log-ratio the
  loss fails with the assertion error, not with the value error of the unknown mode.
\<close>

theorem loss_unknown_mode_counterexample:
  "loss_type (cfg ''MSE'') \<noteq> ''ELBO'' \<and> loss_type (cfg ''MSE'') \<noteq> ''IWELBO''
 \<and> WVAE_loss (cfg ''MSE'') Map.empty
      [''log_qjoint'' \<mapsto> \<lparr>shape = [2], data = [0, 0]\<rparr>]
      [''log_pjoint'' \<mapsto> \<lparr>shape = [2], data = [1, 2]\<rparr>,
       ''log_px_latents'' \<mapsto> \<lparr>shape = [2], data = [1, 2]\<rparr>] 1 = Inl AssertionError"
  by (simp add: WVAE_loss_def bind_err_def getitem_def tsub_def tbinop_def
      broadcast_shapes_def ndim_def cfg_def)

text \<open>
  C8: two calls of the loss that differ only in the KL annealing weight return the same
  result: the same loss, reconstruction-loss metric and KL placeholders, or the same error.
\<close>

theorem loss_independent_of_kl_weight:
  "WVAE_loss self tensors inference_outputs generative_outputs kl_weight1 =
   WVAE_loss self tensors inference_outputs generative_outputs kl_weight2"
  by (simp add: WVAE_loss_def)

section \<open>Properties of inference, generative and estimate\_likelihood\<close>

lemma bind_err_Inr: "bind_err m f = Inr v \<longleftrightarrow> (\<exists>a. m = Inr a \<and> f a = Inr v)"
  by (cases m) (simp_all add: bind_err_def)

lemma broadcast_rev_prefix: "broadcast_rev (s @ p) s = Some (s @ p)"
proof (induction s)
  case Nil
  show ?case by (cases p) simp_all
next
  case (Cons a s)
  then show ?case by simp
qed

lemma broadcast_prefix: "broadcast (p @ s) s = Inr (p @ s)"
  by (simp add: broadcast_def broadcast_shapes_def broadcast_rev_prefix)

lemma broadcast_same: "broadcast s s = Inr s"
  using broadcast_prefix [of "[]" s] by simp

lemma broadcast_cons: "broadcast (x # s) s = Inr (x # s)"
  using broadcast_prefix [of "[x]" s] by simp

lemma cat_last_butlast: "cat_last a b = Inr d \<Longrightarrow> butlast d = butlast a"
  by (auto simp: cat_last_def split: if_splits)

lemma cat_last_hd:
  assumes "cat_last [c, g] b = Inr d"
  shows "hd d = c"
proof -
  from assms have "d = butlast [c, g] @ [last [c, g] + last b]"
    by (auto simp: cat_last_def split: if_splits)
  then show ?thesis by simp
qed

lemma encoder_input_hd:
  "(case cont_covs of Some cc \<Rightarrow> if enc then cat_last [c, g] cc else Inr [c, g] | None \<Rightarrow> Inr [c, g]) = Inr e
     \<Longrightarrow> hd e = c"
  by (auto simp: cat_last_hd split: option.splits if_splits)

lemma z_encoder_shape:
  "shape_contract self nets latent \<Longrightarrow> z_encoder nets e b c = Inr q \<Longrightarrow> q = [hd e, latent]"
  by (simp add: shape_contract_def)

lemma l_encoder_shape:
  "shape_contract self nets latent \<Longrightarrow> l_encoder nets e b c = Inr q \<Longrightarrow> q = [hd e, 1]"
  by (simp add: shape_contract_def)

lemma inference_shapes:
  assumes c: "shape_contract self nets latent"
    and inf: "inference self nets [cells, genes] batch_index cont_covs cat_covs n_samples = Inr io"
    and P: "P = (case n_samples of None \<Rightarrow> n_particles self | Some n \<Rightarrow> n)"
  shows "io ''z'' = Some (Tensor (particle_dims P @ [cells, latent]))
       \<and> io ''library'' = Some (Tensor (if use_observed_lib_size self then [cells, 1]
                                       else particle_dims P @ [cells, 1]))
       \<and> io ''log_qjoint'' = Some (Tensor (particle_dims P @ [cells]))"
  using inf unfolding inference_def Let_def bind_err_Inr P [symmetric]
  apply (elim exE conjE)
  apply (frule encoder_input_hd)
  apply (frule z_encoder_shape [OF c])
  apply (cases "use_observed_lib_size self")
   apply (auto simp: bind_err_Inr sum_dim_def unsqueeze_def rsample_def log_prob_def
      broadcast_prefix broadcast_cons broadcast_same sum_last_def butlast_append particle_dims_def
      dest!: l_encoder_shape [OF c] split: prod.splits if_splits)
  done


lemma decoder_input_butlast:
  "(case cont_covs of
      None \<Rightarrow> Inr z
    | Some cc \<Rightarrow>
        (case z of
           [] \<Rightarrow> Inl IndexError
         | n_samples # _ \<Rightarrow>
             (case cc of
                [n_obs, n_cont] \<Rightarrow> cat_last z [n_samples, n_obs, n_cont]
              | _ \<Rightarrow> Inl (ValueError ''unpack'')))) = Inr d
   \<Longrightarrow> butlast d = butlast z"
  by (auto simp: cat_last_butlast split: option.splits list.splits)

lemma decoder_shape:
  "shape_contract self nets latent \<Longrightarrow> decoder nets d di l b c y = Inr (sc, r, ra, dr)
     \<Longrightarrow> ra = Tensor (butlast di @ [n_input self])"
  unfolding shape_contract_def by blast

lemma reconstruction_shape:
  "shape_contract self nets latent \<Longrightarrow> get_reconstruction_loss nets x (Tensor s) r d = Inr v
     \<Longrightarrow> v = butlast s"
  unfolding shape_contract_def by blast

lemma local_library_shape:
  "shape_contract self nets latent \<Longrightarrow> compute_local_library_params nets b = Inr (m, v)
     \<Longrightarrow> m = [hd b, 1] \<and> v = [hd b, 1]"
  unfolding shape_contract_def by blast

lemma generative_shapes:
  assumes c: "shape_contract self nets latent"
    and gen: "generative self nets (p @ [cells, latent]) library [cells, 1] x cont_covs cat_covs y
                = Inr go"
    and l: "library = (if use_observed_lib_size self then [cells, 1] else p @ [cells, 1])"
  shows "go ''log_pjoint'' = Some (Tensor (p @ [cells]))"
  using gen unfolding generative_def Let_def bind_err_Inr
  apply (elim exE conjE)
  apply (drule decoder_input_butlast)
  apply (clarsimp split: prod.splits simp: bind_err_Inr)
  apply (frule decoder_shape [OF c])
  apply (cases "use_observed_lib_size self")
   apply (auto simp: bind_err_Inr l log_prob_def broadcast_prefix broadcast_same sum_last_def
      butlast_append
      dest!: local_library_shape [OF c] reconstruction_shape [OF c] split: prod.splits if_splits)
  done


lemma example_contract: "shape_contract (cfg_lib P observed) (example_nets latent 3) latent"
  by (auto simp: shape_contract_def example_nets_def cfg_lib_def bind_err_Inr
      split: pyval.splits if_splits)

text \<open>
  C4, as the code has it: whenever one inference call with \<open>P\<close> particles and the
  matching generative call return, \<open>z\<close>, \<open>log_qjoint\<close> and \<open>log_pjoint\<close> have the particle
  dimension \<open>P\<close> as their leading dimension when \<open>P > 1\<close> and have no particle dimension
  when \<open>P = 1\<close>. The library follows the same convention when it is sampled; an observed
  library size has the shape (cells, 1) for every \<open>P\<close>.
\<close>

theorem particle_dimension_shapes:
  assumes "shape_contract self nets latent"
    and "P = (case n_samples of None \<Rightarrow> n_particles self | Some n \<Rightarrow> n)" and "1 \<le> P"
    and "inference self nets [cells, genes] [cells, 1] cont_covs cat_covs n_samples = Inr io"
    and "io ''z'' = Some (Tensor z)" and "io ''library'' = Some (Tensor library)"
    and "generative self nets z library [cells, 1] [cells, genes] cont_covs cat_covs y = Inr go"
  shows "z = particle_dims P @ [cells, latent]
       \<and> library = (if use_observed_lib_size self then [cells, 1]
                    else particle_dims P @ [cells, 1])
       \<and> io ''log_qjoint'' = Some (Tensor (particle_dims P @ [cells]))
       \<and> go ''log_pjoint'' = Some (Tensor (particle_dims P @ [cells]))"
proof -
  note i = inference_shapes [OF assms(1) assms(4) assms(2)]
  from i assms(5) have z: "z = particle_dims P @ [cells, latent]" by simp
  from i assms(6) have l: "library = (if use_observed_lib_size self then [cells, 1]
                    else particle_dims P @ [cells, 1])" by simp
  have "go ''log_pjoint'' = Some (Tensor (particle_dims P @ [cells]))"
    using generative_shapes [OF assms(1) assms(7) [unfolded z] l] .
  with z l i show ?thesis by simp
qed

text \<open>
  The theorem at five cells and three genes: three particles with a sampled library, and
  one particle with an observed library size.
\<close>

theorem particle_dimension_shapes_witness:
  "output_of (inference (cfg_lib 3 False) (example_nets 10 3) [5, 3] [5, 1] None None None)
      ''log_qjoint'' = Some (Tensor (particle_dims 3 @ [5]))
 \<and> output_of (generative (cfg_lib 3 False) (example_nets 10 3) [3, 5, 10] [3, 5, 1] [5, 1] [5, 3]
      None None None) ''log_pjoint'' = Some (Tensor (particle_dims 3 @ [5]))
 \<and> output_of (inference (cfg_lib 5 True) (example_nets 10 3) [5, 3] [5, 1] None None (Some 1))
      ''log_qjoint'' = Some (Tensor (particle_dims 1 @ [5]))
 \<and> output_of (generative (cfg_lib 5 True) (example_nets 10 3) [5, 10] [5, 1] [5, 1] [5, 3]
      None None None) ''log_pjoint'' = Some (Tensor (particle_dims 1 @ [5]))"
proof -
  let ?nets = "example_nets 10 3"
  let ?io3 = "[''z'' \<mapsto> Tensor [3, 5, 10], ''qz'' \<mapsto> Dist [5, 10], ''ql'' \<mapsto> Dist [5, 1],
      ''library'' \<mapsto> Tensor [3, 5, 1], ''log_ql'' \<mapsto> Tensor [3, 5],
      ''log_qz'' \<mapsto> Tensor [3, 5], ''log_qjoint'' \<mapsto> Tensor [3, 5],
      ''point_library'' \<mapsto> Tensor [5, 1]]"
  let ?io1 = "[''z'' \<mapsto> Tensor [5, 10], ''qz'' \<mapsto> Dist [5, 10], ''ql'' \<mapsto> PyNone,
      ''library'' \<mapsto> Tensor [5, 1], ''log_ql'' \<mapsto> PyFloat,
      ''log_qz'' \<mapsto> Tensor [5], ''log_qjoint'' \<mapsto> Tensor [5],
      ''point_library'' \<mapsto> Tensor [5, 1]]"
  have i3: "inference (cfg_lib 3 False) ?nets [5, 3] [5, 1] None None None = Inr ?io3"
    by (simp add: inference_def example_nets_def cfg_lib_def bind_err_def Let_def rsample_def
        log_prob_def broadcast_def broadcast_shapes_def sum_last_def)
  have i1: "inference (cfg_lib 5 True) ?nets [5, 3] [5, 1] None None (Some 1) = Inr ?io1"
    by (simp add: inference_def example_nets_def cfg_lib_def bind_err_def Let_def rsample_def
        log_prob_def broadcast_def broadcast_shapes_def sum_last_def sum_dim_def unsqueeze_def)
  let ?go3 = "[''px_scale'' \<mapsto> Tensor [3, 5, 3], ''px_r'' \<mapsto> Tensor [3],
      ''px_rate'' \<mapsto> Tensor [3, 5, 3], ''px_dropout'' \<mapsto> Tensor [3, 5, 3],
      ''log_pl'' \<mapsto> Tensor [3, 5], ''log_px_latents'' \<mapsto> Tensor [3, 5],
      ''log_pz'' \<mapsto> Tensor [3, 5], ''log_pjoint'' \<mapsto> Tensor [3, 5]]"
  let ?go1 = "[''px_scale'' \<mapsto> Tensor [5, 3], ''px_r'' \<mapsto> Tensor [3],
      ''px_rate'' \<mapsto> Tensor [5, 3], ''px_dropout'' \<mapsto> Tensor [5, 3],
      ''log_pl'' \<mapsto> PyFloat, ''log_px_latents'' \<mapsto> Tensor [5],
      ''log_pz'' \<mapsto> Tensor [5], ''log_pjoint'' \<mapsto> Tensor [5]]"
  have g3: "generative (cfg_lib 3 False) ?nets [3, 5, 10] [3, 5, 1] [5, 1] [5, 3]
      None None None = Inr ?go3"
    by (simp add: generative_def select_px_r_def example_nets_def cfg_lib_def bind_err_def
        Let_def log_prob_def broadcast_def broadcast_shapes_def sum_last_def)
  have g1: "generative (cfg_lib 5 True) ?nets [5, 10] [5, 1] [5, 1] [5, 3]
      None None None = Inr ?go1"
    by (simp add: generative_def select_px_r_def example_nets_def cfg_lib_def bind_err_def
        Let_def log_prob_def broadcast_def broadcast_shapes_def sum_last_def)
  have z3: "?io3 ''z'' = Some (Tensor [3, 5, 10])" "?io3 ''library'' = Some (Tensor [3, 5, 1])"
    by simp_all
  have z1: "?io1 ''z'' = Some (Tensor [5, 10])" "?io1 ''library'' = Some (Tensor [5, 1])"
    by simp_all
  have P3: "3 = (case None of None \<Rightarrow> n_particles (cfg_lib 3 False) | Some n \<Rightarrow> n)"
    by (simp add: cfg_lib_def)
  have P1: "1 = (case Some 1 of None \<Rightarrow> n_particles (cfg_lib 5 True) | Some n \<Rightarrow> n)"
    by simp
  have le: "(1::nat) \<le> 3" "(1::nat) \<le> 1" by simp_all
  note t3 = particle_dimension_shapes [where self = "cfg_lib 3 False" and nets = ?nets
      and latent = 10 and P = 3 and n_samples = None and cells = 5 and genes = 3
      and cont_covs = None and cat_covs = None and io = ?io3 and z = "[3, 5, 10]"
      and library = "[3, 5, 1]" and y = None and go = ?go3,
      OF example_contract P3 le(1) i3 z3 g3]
  note t1 = particle_dimension_shapes [where self = "cfg_lib 5 True" and nets = ?nets
      and latent = 10 and P = 1 and n_samples = "Some 1" and cells = 5 and genes = 3
      and cont_covs = None and cat_covs = None and io = ?io1 and z = "[5, 10]"
      and library = "[5, 1]" and y = None and go = ?go1,
      OF example_contract P1 le(2) i1 z1 g1]
  note q3 = t3 [THEN conjunct2, THEN conjunct2, THEN conjunct1]
  note p3 = t3 [THEN conjunct2, THEN conjunct2, THEN conjunct2]
  note q1 = t1 [THEN conjunct2, THEN conjunct2, THEN conjunct1]
  note p1 = t1 [THEN conjunct2, THEN conjunct2, THEN conjunct2]
  show ?thesis
    unfolding i3 i1 g3 g1 output_of_def sum.case
    by (intro conjI) (rule q3, rule p3, rule q1, rule p1)
qed

text \<open>
  C4 as the claim words it fails for an observed library size: with three particles
  \<open>z\<close> has the leading particle dimension and the library has none, and the library has
  the same shape with three particles as with one.
\<close>

theorem observed_library_counterexample:
  "output_of (inference (cfg_lib 3 True) (example_nets 10 3) [5, 3] [5, 1] None None None) ''z''
     = Some (Tensor [3, 5, 10])
 \<and> output_of (inference (cfg_lib 3 True) (example_nets 10 3) [5, 3] [5, 1] None None None)
      ''library'' = Some (Tensor [5, 1])
 \<and> output_of (inference (cfg_lib 1 True) (example_nets 10 3) [5, 3] [5, 1] None None None)
      ''library'' = Some (Tensor [5, 1])
 \<and> output_of (generative (cfg_lib 3 True) (example_nets 10 3) [3, 5, 10] [5, 1] [5, 1] [5, 3]
      None None None) ''log_pjoint'' = Some (Tensor [3, 5])"
  by (simp add: output_of_def inference_def generative_def select_px_r_def example_nets_def
      cfg_lib_def bind_err_def Let_def rsample_def log_prob_def broadcast_def
      broadcast_shapes_def sum_last_def sum_dim_def unsqueeze_def)

lemma generative_no_px:
  "generative self nets z library batch_index x cont_covs cat_covs y = Inr outs
     \<Longrightarrow> outs ''px'' = None"
  by (auto simp: generative_def bind_err_Inr Let_def split: prod.splits)

text \<open>
  C3: \<^verbatim>\<open>estimate_likelihood\<close> reads the key \<^verbatim>\<open>"px"\<close> of the dictionary that
  \<^verbatim>\<open>generative\<close> returns, and no dictionary that \<^verbatim>\<open>generative\<close> returns has that key:
  the method returns for no input, and where the generative step itself succeeds it
  fails with the key error.
\<close>

lemma estimate_likelihood_never_returns:
  "estimate_likelihood self nets tensors inference_outputs \<noteq> Inr v"
proof
  assume "estimate_likelihood self nets tensors inference_outputs = Inr v"
  then obtain gen_ins outs px where
    g: "generative_kwargs self nets gen_ins = Inr outs" and p: "getitem outs ''px'' = Inr px"
    by (auto simp: estimate_likelihood_def bind_err_Inr)
  from g have "outs ''px'' = None"
    by (auto simp: generative_kwargs_def bind_err_Inr generative_no_px split: if_splits)
  with p show False by (simp add: getitem_def)
qed

text \<open>
  C3 at a batch of five cells and three genes with three particles of a latent and a
  library to score: the generative step succeeds, and the call fails with the key error
  instead of returning the log-likelihood.
\<close>

theorem estimate_likelihood_key_error:
  "estimate_likelihood (cfg_lib 3 False) (example_nets 10 3)
     [''X'' \<mapsto> Tensor [5, 3], ''x'' \<mapsto> Tensor [5, 3], ''batch'' \<mapsto> Tensor [5, 1],
      ''labels'' \<mapsto> Tensor [5, 1]]
     [''z'' \<mapsto> Tensor [3, 5, 10], ''library'' \<mapsto> Tensor [3, 5, 1]]
   = Inl (KeyError ''px'')"
  by (simp add: estimate_likelihood_def get_generative_input_def generative_kwargs_def
      generative_def select_px_r_def example_nets_def cfg_lib_def bind_err_def getitem_def
      as_tensor_def as_optional_tensor_def broadcast_def broadcast_shapes_def log_prob_def
      sum_last_def Let_def)

section \<open>Properties of the FDR procedure\<close>

lemma mset_insert_desc: "mset (insert_desc ops x ys) = add_mset x (mset ys)"
  by (induction ys) simp_all

lemma mset_sort_values_desc: "mset (sort_values_desc ops s) = mset s"
  unfolding sort_values_desc_def by (induction s) (simp_all add: mset_insert_desc)

lemma length_cumsum_from: "length (cumsum_from ops acc xs) = length xs"
  by (induction xs arbitrary: acc) simp_all

lemma length_cumsum: "length (cumsum ops xs) = length xs"
  by (cases xs) (simp_all add: cumsum_def length_cumsum_from)

lemma length_cumulative_fdr: "length (cumulative_fdr_of ops s) = length s"
  by (simp add: cumulative_fdr_of_def length_cumsum)

lemma filter_label_distinct:
  "distinct (map fst xs) \<Longrightarrow> (l, v) \<in> set xs \<Longrightarrow> filter (\<lambda>(l', v). l' = l) xs = [(l, v)]"
proof (induction xs)
  case Nil
  then show ?case by simp
next
  case (Cons x xs)
  show ?case
  proof (cases "fst x = l")
    case True
    with Cons.prems have "x = (l, v)" by (cases x) (auto simp: image_iff)
    moreover have "filter (\<lambda>(l', v). l' = l) xs = []"
      using Cons.prems(1) True by (auto simp: filter_empty_conv image_iff)
    ultimately show ?thesis by simp
  next
    case False
    with Cons show ?thesis by (cases x) auto
  qed
qed

lemma concat_singletons:
  "(\<And>l. l \<in> set labels \<Longrightarrow> f l = [g l]) \<Longrightarrow> concat (map f labels) = map g labels"
  by (induction labels) simp_all

lemma loc_labels_distinct:
  assumes "distinct (map fst xs)" "set labels \<subseteq> fst ` set xs"
  shows "loc_labels xs labels = map (\<lambda>l. (l, the (map_of xs l))) labels"
  unfolding loc_labels_def
proof (rule concat_singletons)
  fix l assume "l \<in> set labels"
  with assms(2) obtain v where v: "(l, v) \<in> set xs" by auto
  with assms(1) have "map_of xs l = Some v" by simp
  with filter_label_distinct [OF assms(1) v]
  show "filter (\<lambda>(l', v). l' = l) xs = [(l, the (map_of xs l))]" by simp
qed

lemma map_of_tabulate: "l \<in> set labels \<Longrightarrow> map_of (map (\<lambda>l. (l, f l)) labels) l = Some (f l)"
  by (induction labels) auto

text \<open>
  What the procedure computes, in any arithmetic and for any sorting routine that returns
  a permutation of the rows: when the index labels are pairwise distinct, it returns one
  flag for each input row in the order of the input's index, and the gene at position
  \<open>i\<close> of the sorted rows is flagged exactly when \<open>i\<close> is less than the number of ranks
  whose cumulative expected FDR is at most the threshold. That number is a count; when
  the computed cumulative FDR is not monotone, it is not the largest such rank.
\<close>

lemma fdr_flags_by_count:
  assumes "mset (srt s) = mset s" and "distinct (map fst s)"
  shows "\<exists>flags. fdr_de_prediction srt ops (Series s) fdr = Inr flags
           \<and> map fst flags = map fst s
           \<and> (\<forall>i<length s. map_of flags (fst (srt s ! i))
                  = Some (i < length (filter (\<lambda>c. fle ops c fdr) (cumulative_fdr_of ops (srt s)))))"
proof -
  let ?sorted = "srt s"
  let ?c = "cumulative_fdr_of ops ?sorted"
  let ?d = "length (filter (\<lambda>c. fle ops c fdr) ?c)"
  let ?n = "length ?sorted"
  let ?flagged = "zip (map fst ?sorted) (replicate ?d True @ replicate (length ?c - ?d) False)"
  have n: "?n = length s" using assms(1) by (rule mset_eq_length)
  have "mset (map fst ?sorted) = mset (map fst s)" using assms(1) by simp
  then have dist: "distinct (map fst ?sorted)" and labels: "set (map fst ?sorted) = set (map fst s)"
    using assms(2) mset_eq_imp_distinct_iff mset_eq_setD by blast+
  have d: "?d \<le> ?n"
    using length_filter_le [of _ ?c] by (simp add: length_cumulative_fdr)
  have lf: "length ?flagged = ?n" using d by (simp add: length_cumulative_fdr)
  have mf: "map fst ?flagged = map fst ?sorted"
    using d by (simp add: length_cumulative_fdr)
  have nf: "?flagged ! i = (fst (?sorted ! i), i < ?d)" if "i < ?n" for i
    using that d by (simp add: length_cumulative_fdr nth_append)
  have loc: "loc_labels ?flagged (map fst s) = map (\<lambda>l. (l, the (map_of ?flagged l))) (map fst s)"
    using dist labels by (intro loc_labels_distinct) (simp_all add: mf image_image flip: set_map)
  define flags where "flags = loc_labels ?flagged (map fst s)"
  have r: "fdr_de_prediction srt ops (Series s) fdr = Inr flags"
    by (simp add: fdr_de_prediction_def Let_def flags_def)
  have f1: "map fst flags = map fst s"
    by (simp add: flags_def loc comp_def)
  have f2: "map_of flags (fst (?sorted ! i)) = Some (i < ?d)" if "i < length s" for i
  proof -
    let ?l = "fst (?sorted ! i)"
    have i: "i < ?n" using that n by simp
    then have "?sorted ! i \<in> set ?sorted" by (rule nth_mem)
    then have "?l \<in> fst ` set ?sorted" by (rule imageI)
    then have "?l \<in> set (map fst s)" using labels by simp
    then have "map_of flags ?l = Some (the (map_of ?flagged ?l))"
      unfolding flags_def loc by (rule map_of_tabulate)
    moreover have "(?l, i < ?d) \<in> set ?flagged"
      using nf [OF i] lf i by (metis nth_mem)
    then have "map_of ?flagged ?l = Some (i < ?d)"
      using dist by (simp add: mf)
    ultimately show ?thesis by simp
  qed
  show ?thesis using r f1 f2 by blast
qed

text \<open>An input that is not 1-dimensional fails with a value error.\<close>

lemma fdr_not_1d:
  "pd_ndim p \<noteq> 1 \<Longrightarrow> \<exists>msg. fdr_de_prediction srt ops p fdr = Inl (ValueError msg)"
  by (cases p) (simp_all add: fdr_de_prediction_def)

subsection \<open>In exact arithmetic\<close>

text \<open>
  Without rounding, the running mean of an ascending sequence is monotone, so for rows
  sorted by descending probability the count of ranks under the threshold is the largest
  such rank: with distinct labels the procedure then flags exactly the genes up to the
  cutoff of the specification.
\<close>

lemma nth_cumsum_from_exact:
  "i < length xs \<Longrightarrow> cumsum_from exact_ops acc xs ! i = acc + sum_list (take (Suc i) xs)"
proof (induction xs arbitrary: acc i)
  case Nil
  then show ?case by simp
next
  case (Cons x xs)
  then show ?case by (cases i) (simp_all add: add.assoc exact_ops_def)
qed

lemma nth_cumsum_exact:
  "i < length xs \<Longrightarrow> cumsum exact_ops xs ! i = sum_list (take (Suc i) xs)"
proof (cases xs)
  case Nil
  assume "i < length xs"
  with Nil show ?thesis by simp
next
  case (Cons x xs')
  assume "i < length xs"
  with Cons show ?thesis by (cases i) (simp_all add: cumsum_def nth_cumsum_from_exact)
qed

lemma sum_list_take_nth: "k \<le> length xs \<Longrightarrow> sum_list (take k xs) = (\<Sum>i<k. (xs ! i :: real))"
proof (induction k)
  case 0
  show ?case by simp
next
  case (Suc k)
  then show ?case by (simp add: take_Suc_conv_app_nth)
qed

lemma nth_cumulative_fdr_exact:
  assumes "i < length s"
  shows "cumulative_fdr_of exact_ops s ! i = expected_fdr s (Suc i)"
proof -
  let ?a = "map (\<lambda>(l, p). 1 - p) s"
  have "sum_list (take (Suc i) ?a) = (\<Sum>j<Suc i. ?a ! j)"
    using assms by (intro sum_list_take_nth) simp
  also have "\<dots> = (\<Sum>j<Suc i. 1 - snd (s ! j))"
    using assms by (intro sum.cong refl) (simp add: case_prod_unfold)
  finally have "cumsum exact_ops ?a ! i = (\<Sum>j<Suc i. 1 - snd (s ! j))"
    using assms by (simp add: nth_cumsum_exact)
  moreover have "map (\<lambda>(l, p). fsub exact_ops (fone exact_ops) p) s = ?a"
    by (simp add: exact_ops_def)
  ultimately show ?thesis
    using assms
    by (simp add: cumulative_fdr_of_def length_cumsum expected_fdr_def add.commute)
       (simp add: exact_ops_def add.commute)
qed

lemma expected_fdr_mono:
  assumes srt: "sorted_wrt (\<lambda>a b. snd b \<le> snd a) s" and k: "0 < k" "k < length s"
  shows "expected_fdr s k \<le> expected_fdr s (Suc k)"
proof -
  define a where "a i = 1 - snd (s ! i)" for i
  define S where "S = (\<Sum>i<k. a i)"
  have "a i \<le> a k" if "i < k" for i
    using sorted_wrt_nth_less [OF srt that k(2)] by (simp add: a_def)
  then have "S \<le> real (card {..<k}) * a k"
    unfolding S_def by (intro sum_bounded_above) simp
  then have b: "S \<le> real k * a k" by simp
  have "S / real k \<le> (S + a k) / (real k + 1)"
  proof -
    have "S * (real k + 1) \<le> (S + a k) * real k"
      using b by (simp add: algebra_simps)
    then show ?thesis
      using k(1) by (simp add: field_simps)
  qed
  then show ?thesis
    by (simp add: expected_fdr_def a_def S_def add.commute)
qed

lemma sorted_cumulative_fdr_exact:
  assumes "sorted_wrt (\<lambda>a b. snd b \<le> snd a) s"
  shows "sorted (cumulative_fdr_of exact_ops s)"
  unfolding sorted_iff_nth_Suc length_cumulative_fdr
proof (intro allI impI)
  fix i assume i: "Suc i < length s"
  then show "cumulative_fdr_of exact_ops s ! i \<le> cumulative_fdr_of exact_ops s ! Suc i"
    using expected_fdr_mono [OF assms, of "Suc i"] by (simp add: nth_cumulative_fdr_exact)
qed

lemma sorted_filter_prefix:
  "sorted c \<Longrightarrow> i < length c \<Longrightarrow> (c ! i \<le> f \<longleftrightarrow> i < length (filter (\<lambda>x. x \<le> (f::real)) c))"
proof (induction c arbitrary: i)
  case Nil
  then show ?case by simp
next
  case (Cons x xs)
  show ?case
  proof (cases "x \<le> f")
    case True
    with Cons show ?thesis by (cases i) simp_all
  next
    case False
    with Cons.prems have a: "\<forall>y\<in>set (x # xs). \<not> y \<le> f" by auto
    then have e: "filter (\<lambda>x. x \<le> f) (x # xs) = []"
      by (simp add: filter_empty_conv)
    have "(x # xs) ! i \<in> set (x # xs)"
      using Cons.prems(2) by (rule nth_mem)
    with a have "\<not> (x # xs) ! i \<le> f" by blast
    with e show ?thesis by simp
  qed
qed

lemma Max_ranks: "Max (insert 0 {1..d}) = (d::nat)"
  by (rule Max_eqI) auto

lemma fdr_cutoff_count_exact:
  assumes "sorted_wrt (\<lambda>a b. snd b \<le> snd a) s"
  shows "fdr_cutoff s fdr = length (filter (\<lambda>c. c \<le> fdr) (cumulative_fdr_of exact_ops s))"
proof -
  let ?d = "length (filter (\<lambda>c. c \<le> fdr) (cumulative_fdr_of exact_ops s))"
  have d: "?d \<le> length s"
    using length_filter_le [of _ "cumulative_fdr_of exact_ops s"] by (simp add: length_cumulative_fdr)
  have "expected_fdr s k \<le> fdr \<longleftrightarrow> k \<le> ?d" if "1 \<le> k" "k \<le> length s" for k
  proof -
    from that(1) have "k \<noteq> 0" by simp
    then obtain i where i: "k = Suc i" by (cases k) simp_all
    then have "i < length (cumulative_fdr_of exact_ops s)" using that(2) by (simp add: length_cumulative_fdr)
    from sorted_filter_prefix [OF sorted_cumulative_fdr_exact [OF assms] this, of fdr]
    show ?thesis using i that(2) by (simp add: nth_cumulative_fdr_exact Suc_le_eq)
  qed
  then have "set (filter (\<lambda>k. expected_fdr s k \<le> fdr) [1..<Suc (length s)]) = {1..?d}"
    using d by auto
  then have "fdr_cutoff s fdr = Max (insert 0 {1..?d})"
    by (simp add: fdr_cutoff_def)
  also have "\<dots> = ?d"
    by (rule Max_ranks)
  finally show ?thesis .
qed


lemma fdr_exact_arithmetic:
  assumes "mset (srt s) = mset s" and "sorted_wrt (\<lambda>a b. snd b \<le> snd a) (srt s)"
    and "distinct (map fst s)"
  shows "\<exists>flags. fdr_de_prediction srt exact_ops (Series s) fdr = Inr flags
           \<and> map fst flags = map fst s
           \<and> (\<forall>i<length s. map_of flags (fst (srt s ! i))
                  = Some (Suc i \<le> fdr_cutoff (srt s) fdr))"
  using fdr_flags_by_count [where srt = srt and s = s and ops = exact_ops and fdr = fdr,
      OF assms(1,3)]
  by (simp add: fdr_cutoff_count_exact [OF assms(2)] Suc_le_eq exact_ops_def)

text \<open>
  The probabilities 0.9, 0.8, 0.7, 0.1, 0.05 with the threshold 0.1: the cumulative
  expected FDR is 0.1, 0.15, 0.2, 0.375, 0.49, so only the first gene is flagged.
\<close>

lemma fdr_example_exact:
  "fdr_de_prediction (sort_values_desc exact_ops) exact_ops
     (Series [(''g1'', 9 / 10), (''g2'', 8 / 10), (''g3'', 7 / 10), (''g4'', 1 / 10), (''g5'', 5 / 100)])
     (1 / 10)
   = Inr [(''g1'', True), (''g2'', False), (''g3'', False), (''g4'', False), (''g5'', False)]"
  by (simp add: fdr_de_prediction_def sort_values_desc_def cumulative_fdr_of_def cumsum_def
      loc_labels_def exact_ops_def Let_def upt_conv_Cons)


subsection \<open>Repeated index labels\<close>

lemma list_of_length_two: "length xs = 2 \<Longrightarrow> \<exists>a b. xs = [a, b]"
  by (auto simp: length_Suc_conv numeral_2_eq_2)

lemma two_rows_same_label:
  assumes "mset xs = mset [(l, p1), (l, p2)]"
  shows "map fst xs = [l, l]"
proof -
  have "length xs = 2" using mset_eq_length [OF assms] by simp
  then obtain a b where xs: "xs = [a, b]"
    using list_of_length_two by blast
  have "set xs = {(l, p1), (l, p2)}" using mset_eq_setD [OF assms] by simp
  then have "a \<in> {(l, p1), (l, p2)}" "b \<in> {(l, p1), (l, p2)}" using xs by auto
  then have "fst a = l" "fst b = l" by auto
  with xs show ?thesis by simp
qed

lemma loc_labels_twice:
  "loc_labels [(l, b1), (l, b2)] [l, l] = [(l, b1), (l, b2), (l, b1), (l, b2)]"
  by (simp add: loc_labels_def)

text \<open>
  C2: the claim says that the flags come back in the order of the input's index, one for
  each gene. The last step of the procedure selects by label, and selecting a label
  returns every row that carries it: for a series of two rows with the same index label
  the procedure returns four flags, whatever the probabilities, the threshold and the
  arithmetic.
\<close>

theorem fdr_duplicate_labels:
  "\<exists>flags. fdr_de_prediction (sort_values_desc ops) ops (Series [(l, p1), (l, p2)]) fdr = Inr flags
     \<and> map fst flags = [l, l, l, l]"
proof -
  define sorted where "sorted = sort_values_desc ops [(l, p1), (l, p2)]"
  define c where "c = cumulative_fdr_of ops sorted"
  define d where "d = length (filter (\<lambda>c. fle ops c fdr) c)"
  define bs where "bs = replicate d True @ replicate (length c - d) False"
  have m: "map fst sorted = [l, l]"
    unfolding sorted_def by (rule two_rows_same_label) (rule mset_sort_values_desc)
  then have n: "length sorted = 2" using length_map [of fst sorted] by simp
  have lc: "length c = 2" by (simp add: c_def length_cumulative_fdr n)
  have "d \<le> length c" unfolding d_def by (rule length_filter_le)
  then have "length bs = 2" by (simp add: bs_def lc)
  then obtain b1 b2 where bs: "bs = [b1, b2]"
    using list_of_length_two by blast
  have r: "fdr_de_prediction (sort_values_desc ops) ops (Series [(l, p1), (l, p2)]) fdr
      = Inr (loc_labels (zip (map fst sorted) bs) [l, l])"
    by (simp add: fdr_de_prediction_def Let_def sorted_def c_def d_def bs_def)
  have "loc_labels (zip (map fst sorted) bs) [l, l] = [(l, b1), (l, b2), (l, b1), (l, b2)]"
    unfolding m bs by (simp add: loc_labels_twice)
  with r show ?thesis by simp
qed

section \<open>Properties of the differential expression engine\<close>

lemma fold_update_length:
  "length (fold (\<lambda>p a. a[position n p := val]) ps arr) = length arr"
  by (induction ps arbitrary: arr) simp_all

lemma fold_update_keeps:
  "i < length arr \<Longrightarrow> arr ! i = val \<Longrightarrow> fold (\<lambda>p a. a[position n p := val]) ps arr ! i = val"
proof (induction ps arbitrary: arr)
  case Nil
  then show ?case by simp
next
  case (Cons p ps)
  have "i < length (arr[position n p := val])" "arr[position n p := val] ! i = val"
    using Cons.prems by (cases "position n p = i"; simp)+
  then have "fold (\<lambda>p a. a[position n p := val]) ps (arr[position n p := val]) ! i = val"
    by (rule Cons.IH)
  then show ?case by simp
qed

lemma fold_update_sets:
  "\<forall>p\<in>set ps. position n p < length arr \<Longrightarrow> i \<in> position n ` set ps
     \<Longrightarrow> fold (\<lambda>p a. a[position n p := val]) ps arr ! i = val"
proof (induction ps arbitrary: arr)
  case Nil
  then show ?case by simp
next
  case (Cons p ps)
  show ?case
  proof (cases "i = position n p")
    case True
    with Cons.prems show ?thesis by (simp add: fold_update_keeps)
  next
    case False
    with Cons show ?thesis by simp
  qed
qed

lemma position_range: "- int n \<le> p \<Longrightarrow> p < int n \<Longrightarrow> position n p < n"
  by (auto simp: position_def)

lemma np_setitem_length: "np_setitem arr idx val = Inr arr' \<Longrightarrow> length arr' = length arr"
  by (auto simp: np_setitem_def fold_update_length split: np_index.splits if_splits)

lemma np_setitem_selected:
  assumes "np_setitem arr idx val = Inr arr'" and "selects idx (length arr) i"
  shows "i < length arr \<and> arr' ! i = val"
proof (cases idx)
  case (BoolArr m)
  with assms show ?thesis
    by (auto simp: np_setitem_def selects_def split: if_splits)
next
  case (IntArr ps)
  with assms have r: "\<forall>p\<in>set ps. - int (length arr) \<le> p \<and> p < int (length arr)"
    and a: "arr' = fold (\<lambda>p a. a[position (length arr) p := val]) ps arr"
    and i: "i \<in> position (length arr) ` set ps"
    by (auto simp: np_setitem_def selects_def split: if_splits)
  from r have b: "\<forall>p\<in>set ps. position (length arr) p < length arr"
    by (simp add: position_range)
  with i have "i < length arr" by auto
  with fold_update_sets [OF b i] a show ?thesis by simp
qed

text \<open>
  C9: when \<^verbatim>\<open>_prepare_obs\<close> is given both populations and returns, a cell that both
  select is labelled \<^verbatim>\<open>"two"\<close>: the labelling of \<open>idx2\<close> overwrites that of \<open>idx1\<close>.
  The masks that \<^verbatim>\<open>_de_core\<close> derives from the column therefore count the cell in
  the second population only.
\<close>

theorem overlap_labelled_group_two:
  assumes "prepare_obs query idx1 (Some idx2) adata = Inr (obs_col, group1, group2)"
    and "ravel_idx query idx1 = Inr a1" and "ravel_idx query idx2 = Inr a2"
    and "selects a1 (shape0 adata) i" and "selects a2 (shape0 adata) i"
  shows "group1 = [''one''] \<and> group2 = Some ''two''
       \<and> i < length obs_col \<and> obs_col ! i = ''two''
       \<and> \<not> map (\<lambda>v. v = ''one'') obs_col ! i \<and> map (\<lambda>v. v = ''two'') obs_col ! i"
proof -
  from assms(1-3) obtain c1 where
    c1: "np_setitem (replicate (shape0 adata) ''None'') a1 ''one'' = Inr c1"
    and c2: "np_setitem c1 a2 ''two'' = Inr obs_col"
    and g: "group1 = [''one'']" "group2 = Some ''two''"
    by (auto simp: prepare_obs_def bind_err_Inr Let_def split: if_splits)
  have l: "length c1 = shape0 adata" using np_setitem_length [OF c1] by simp
  have "i < length c1 \<and> obs_col ! i = ''two''"
    using np_setitem_selected [OF c2] assms(5) l by simp
  moreover have "length obs_col = length c1" using c2 by (rule np_setitem_length)
  ultimately show ?thesis using g by simp
qed

text \<open>The theorem at four cells with two masks that overlap in the second cell.\<close>

theorem overlap_labelled_group_two_witness:
  "prepare_obs no_query (BoolMask [True, True, False, False])
     (Some (BoolMask [False, True, True, False])) example_adata
     = Inr ([''one'', ''two'', ''two'', ''None''], [''one''], Some ''two'')
 \<and> selects (BoolArr [True, True, False, False]) (shape0 example_adata) 1
 \<and> selects (BoolArr [False, True, True, False]) (shape0 example_adata) 1
 \<and> [''one'', ''two'', ''two'', ''None''] ! 1 = ''two''
 \<and> \<not> map (\<lambda>v. v = ''one'') [''one'', ''two'', ''two'', ''None''] ! 1
 \<and> map (\<lambda>v. v = ''two'') [''one'', ''two'', ''two'', ''None''] ! 1"
proof -
  let ?m1 = "[True, True, False, False]"
  let ?m2 = "[False, True, True, False]"
  let ?col = "[''one'', ''two'', ''two'', ''None'']"
  have p: "prepare_obs no_query (BoolMask ?m1) (Some (BoolMask ?m2)) example_adata
     = Inr (?col, [''one''], Some ''two'')"
    by (simp add: prepare_obs_def ravel_idx_def np_setitem_def np_selected_def example_adata_def
        bind_err_def Let_def eval_nat_numeral)
  have r1: "ravel_idx no_query (BoolMask ?m1) = Inr (BoolArr ?m1)"
    and r2: "ravel_idx no_query (BoolMask ?m2) = Inr (BoolArr ?m2)"
    by (simp_all add: ravel_idx_def)
  have s1: "selects (BoolArr ?m1) (shape0 example_adata) 1"
    and s2: "selects (BoolArr ?m2) (shape0 example_adata) 1"
    by (simp_all add: selects_def)
  note t = overlap_labelled_group_two [OF p r1 r2 s1 s2]
  show ?thesis
    by (intro conjI) (rule p, rule s1, rule s2,
        rule t [THEN conjunct2, THEN conjunct2, THEN conjunct2, THEN conjunct1],
        rule t [THEN conjunct2, THEN conjunct2, THEN conjunct2, THEN conjunct2, THEN conjunct1],
        rule t [THEN conjunct2, THEN conjunct2, THEN conjunct2, THEN conjunct2, THEN conjunct2])
qed

lemma set_then_del_column:
  assumes "key \<notin> fst ` set t"
  shows "del_column (set_column t key col) key = Inr t"
proof -
  have "filter (\<lambda>(k, c). k \<noteq> key) t = t"
    using assms by (intro filter_True) (auto simp: image_iff)
  then show ?thesis using assms by (simp add: del_column_def set_column_def)
qed

lemma del_column_removes: "del_column t key = Inr t' \<Longrightarrow> key \<notin> fst ` set t'"
  by (auto simp: del_column_def split: if_splits)

text \<open>
  C6, as the code has it: when a mask-based call of \<^verbatim>\<open>_de_core\<close> completes normally,
  the temporary grouping column is not in the obs table afterwards; and when the table
  had no column of that name before the call, the table after the call is the table
  before the call, so the sets of columns are equal.
\<close>

theorem temp_column_removed:
  assumes "de_core query per_group adata groupby group1 group2 (Some idx1) idx2
             = (Inr result, adata')"
    and "temp_key \<notin> set (obs_columns adata)"
  shows "temp_key \<notin> set (obs_columns adata')
       \<and> obs adata' = obs adata
       \<and> set (obs_columns adata') = set (obs_columns adata)"
proof -
  from assms(1) obtain obs_col t where
    t: "del_column (set_column (obs adata) temp_key obs_col) temp_key = Inr t"
    and a: "adata' = adata\<lparr>obs := t\<rparr>"
    by (auto simp: de_core_def bind_err_Inr Let_def
        split: sum.splits prod.splits if_splits)
  have "temp_key \<notin> fst ` set (obs adata)"
    using assms(2) by (simp add: obs_columns_def)
  then have "t = obs adata"
    using t by (simp add: set_then_del_column)
  with a assms(2) show ?thesis by (simp add: obs_columns_def)
qed

lemma temp_column_always_removed:
  assumes "de_core query per_group adata groupby group1 group2 (Some idx1) idx2
             = (Inr result, adata')"
  shows "temp_key \<notin> set (obs_columns adata')"
proof -
  from assms(1) obtain obs_col t where
    t: "del_column (set_column (obs adata) temp_key obs_col) temp_key = Inr t"
    and a: "adata' = adata\<lparr>obs := t\<rparr>"
    by (auto simp: de_core_def bind_err_Inr Let_def
        split: sum.splits prod.splits if_splits)
  from del_column_removes [OF t] a show ?thesis by (simp add: obs_columns_def)
qed

text \<open>
  The theorem at four cells with two disjoint, non-empty boolean masks.
\<close>

theorem temp_column_removed_witness:
  "de_core no_query count_cells example_adata ''batch'' GroupNone None
     (Some (BoolMask [True, True, False, False])) (Some (BoolMask [False, False, True, False]))
     = (Inr [\<lparr>table = (2, 1), comparison = None\<rparr>], example_adata)
 \<and> temp_key \<notin> set (obs_columns example_adata)
 \<and> set (obs_columns example_adata) = set (obs_columns example_adata)"
proof -
  have d: "de_core no_query count_cells example_adata ''batch'' GroupNone None
     (Some (BoolMask [True, True, False, False])) (Some (BoolMask [False, False, True, False]))
     = (Inr [\<lparr>table = (2, 1), comparison = None\<rparr>], example_adata)"
    by (simp add: de_core_def prepare_obs_def ravel_idx_def np_setitem_def np_selected_def
        example_adata_def count_cells_def set_column_def del_column_def get_column_def
        temp_key_def bind_err_def Let_def eval_nat_numeral)
  have h: "temp_key \<notin> set (obs_columns example_adata)"
    by (simp add: temp_key_def obs_columns_def example_adata_def)
  note t = temp_column_removed [OF d h]
  show ?thesis
    by (intro conjI) (rule d, rule h, rule t [THEN conjunct2, THEN conjunct2])
qed

text \<open>
  C6 as the claim words it fails on a table that already has a column named
  \<^verbatim>\<open>_scvi_temp_de\<close>, as a call that failed half-way leaves it: the call with two
  disjoint non-empty masks completes normally, overwrites that column and deletes it, so
  the table has one column less than before.
\<close>

theorem temp_column_preexisting_counterexample:
  "de_core no_query count_cells
     (example_adata\<lparr>obs := obs example_adata @ [(''_scvi_temp_de'', [''x'', ''x'', ''x'', ''x''])]\<rparr>)
     ''batch'' GroupNone None
     (Some (BoolMask [True, True, False, False])) (Some (BoolMask [False, False, True, False]))
     = (Inr [\<lparr>table = (2, 1), comparison = None\<rparr>], example_adata)
 \<and> obs_columns (example_adata\<lparr>obs := obs example_adata @ [(''_scvi_temp_de'', [''x'', ''x'', ''x'', ''x''])]\<rparr>)
     = [''batch'', ''_scvi_temp_de'']
 \<and> obs_columns example_adata = [''batch'']"
  by (simp add: de_core_def prepare_obs_def ravel_idx_def np_setitem_def np_selected_def
      example_adata_def count_cells_def set_column_def del_column_def get_column_def
      temp_key_def obs_columns_def bind_err_def Let_def eval_nat_numeral)

section \<open>Properties of the history merge\<close>

lemma replace_keys: "map fst (map (\<lambda>(k, w). if k = key then (k, v) else (k, w)) d) = map fst d"
  by (induction d) auto

lemma dict_setitem_keys:
  "key \<in> fst ` set d \<Longrightarrow> map fst (dict_setitem d key v) = map fst d"
  by (simp only: dict_setitem_def if_True replace_keys)

lemma map_of_replace:
  "map_of (map (\<lambda>(k, w). if k = key then (k, v) else (k, w)) d) k
     = (if k = key \<and> key \<in> fst ` set d then Some v else map_of d k)"
proof (induction d)
  case Nil
  show ?case by simp
next
  case (Cons x d)
  obtain a b where x: "x = (a, b)" by (cases x)
  show ?case using Cons x by (cases "a = key"; cases "k = key"; simp)
qed

lemma map_of_dict_setitem:
  "map_of (dict_setitem d key v) k = (if k = key then Some v else map_of d k)"
proof (cases "key \<in> fst ` set d")
  case True
  then show ?thesis by (simp add: dict_setitem_def map_of_replace)
next
  case False
  then have "map_of d key = None" by (simp add: map_of_eq_None_iff)
  with False show ?thesis by (simp add: dict_setitem_def map_add_def split: option.splits)
qed

lemma continued_rows:
  "zip (arange n (n + length xs)) (map snd xs)
     = map (\<lambda>i. (int (n + i), snd (xs ! i))) [0..<length xs]"
  by (rule nth_equalityI) (simp_all add: arange_def)

lemma merged_appended: "merge_frames val (continue_index val new) = appended val new"
  by (simp add: merge_frames_def continue_index_def concat_frames_def set_index_def
      appended_def continued_rows Let_def)

lemma merge_loop_keys:
  "fst ` set items \<subseteq> fst ` set h \<Longrightarrow> map fst (fst (merge_loop items h nh)) = map fst h"
proof (induction items arbitrary: h nh)
  case Nil
  show ?case by simp
next
  case (Cons item items)
  obtain key val where item: "item = (key, val)" by (cases item)
  show ?case
  proof (cases "map_of nh key")
    case None
    with Cons item show ?thesis by simp
  next
    case (Some new)
    let ?h = "dict_setitem h key (merge_frames val (continue_index val new))"
    have k: "key \<in> fst ` set h" using Cons.prems item by simp
    then have m: "map fst ?h = map fst h" by (rule dict_setitem_keys)
    then have "set (map fst ?h) = set (map fst h)" by simp
    then have "fst ` set items \<subseteq> fst ` set ?h" using Cons.prems by simp
    then have "map fst (fst (merge_loop items ?h
        (dict_setitem nh key (continue_index val new)))) = map fst ?h"
      by (rule Cons.IH)
    then show ?thesis using Some item m by simp
  qed
qed

lemma merge_loop_lookup:
  "distinct (map fst items) \<Longrightarrow>
   map_of (fst (merge_loop items h nh)) k =
     (case map_of items k of
        None \<Rightarrow> map_of h k
      | Some val \<Rightarrow> (case map_of nh k of None \<Rightarrow> map_of h k | Some new \<Rightarrow> Some (appended val new)))"
proof (induction items arbitrary: h nh)
  case Nil
  show ?case by simp
next
  case (Cons item items)
  obtain key val where item: "item = (key, val)" by (cases item)
  from Cons.prems item have d: "distinct (map fst items)" and n: "map_of items key = None"
    by (simp_all add: map_of_eq_None_iff)
  show ?case
  proof (cases "map_of nh key")
    case None
    have "map_of (fst (merge_loop items h nh)) k =
      (case map_of items k of
        None \<Rightarrow> map_of h k
      | Some v \<Rightarrow> (case map_of nh k of None \<Rightarrow> map_of h k | Some w \<Rightarrow> Some (appended v w)))"
      using d by (rule Cons.IH)
    then show ?thesis using None n item by (cases "k = key") (simp_all split: option.splits)
  next
    case (Some new)
    let ?h = "dict_setitem h key (merge_frames val (continue_index val new))"
    let ?nh = "dict_setitem nh key (continue_index val new)"
    have "map_of (fst (merge_loop items ?h ?nh)) k =
      (case map_of items k of
        None \<Rightarrow> map_of ?h k
      | Some v \<Rightarrow> (case map_of ?nh k of None \<Rightarrow> map_of ?h k | Some w \<Rightarrow> Some (appended v w)))"
      using d by (rule Cons.IH)
    then show ?thesis
      using Some n item
      by (cases "k = key") (simp_all add: map_of_dict_setitem merged_appended split: option.splits)
  qed
qed

text \<open>
  The merge on a second fit, when the model stores a dict and the logger of the new
  trainer exposes a history: for each metric of the first fit, the rows of the second
  fit are appended with indices that continue from the number of rows of the first fit,
  and a metric without rows in the second fit keeps its frame. When the model stores no
  dict, the merge is skipped with a warning.
\<close>

lemma update_history_merges:
  assumes "is_trained self" and "model_history self = HistoryDict h"
    and "logger_history self = Some new_history"
  shows "update_history self =
           Inr (self\<lparr>model_history := HistoryDict (fst (merge_loop h h new_history)),
                     logger_history := Some (snd (merge_loop h h new_history))\<rparr>)"
  using assms by (simp add: update_history_def split: prod.splits)

lemma history_merge_appends:
  assumes "is_trained self" and "model_history self = HistoryDict h" and "distinct (map fst h)"
    and "logger_history self = Some new_history"
  shows "\<exists>self' h'. update_history self = Inr self' \<and> model_history self' = HistoryDict h'
       \<and> (\<forall>key val. map_of h key = Some val \<longrightarrow>
             map_of h' key = Some (case map_of new_history key of
                                     None \<Rightarrow> val
                                   | Some new \<Rightarrow> appended val new))"
proof -
  let ?h' = "fst (merge_loop h h new_history)"
  have "map_of ?h' key = Some (case map_of new_history key of None \<Rightarrow> val
                               | Some new \<Rightarrow> appended val new)"
    if "map_of h key = Some val" for key val
    using that merge_loop_lookup [OF assms(3), of h new_history key]
    by (simp split: option.splits)
  then show ?thesis
    using update_history_merges [OF assms(1,2,4)] by simp
qed

lemma history_not_dict_warns:
  assumes "is_trained self" and "model_history self = NotADict"
  shows "\<exists>msg. update_history self = Inr (self\<lparr>warnings := warnings self @ [msg]\<rparr>)"
  using assms by (auto simp: update_history_def)

text \<open>A second fit of three epochs after a first fit of two.\<close>

lemma second_fit_example:
  "update_history (trained_runner (HistoryDict first_fit) (Some second_fit)) =
     Inr (trained_runner
       (HistoryDict
          [(''elbo_train'',
            \<lparr>rows = [(0, 10), (1, 8), (2, 7), (3, 6), (4, 5)], index_name = Some ''epoch''\<rparr>),
           (''elbo_validation'', \<lparr>rows = [(0, 11), (1, 9)], index_name = Some ''epoch''\<rparr>)])
       (Some
          [(''elbo_train'', \<lparr>rows = [(2, 7), (3, 6), (4, 5)], index_name = Some ''epoch''\<rparr>),
           (''kl_weight'', \<lparr>rows = [(0, 1), (1, 1), (2, 1)], index_name = Some ''epoch''\<rparr>)]))"
  by (simp add: update_history_def trained_runner_def first_fit_def second_fit_def
      dict_setitem_def merge_frames_def continue_index_def concat_frames_def set_index_def
      arange_def Let_def upt_conv_Cons)


text \<open>
  C7: the claim says that a logger without a history makes the merge a warning and not a
  failure. The guard of the code is on the history that the model stores, not on the
  logger: on a trained model whose stored history is a dict, with a logger of the second
  fit that has no \<^verbatim>\<open>history\<close> attribute, reading \<^verbatim>\<open>self.trainer.logger.history\<close>
  raises the attribute error, which the branch for an untrained model catches and this
  branch does not.
\<close>

theorem update_history_attribute_error:
  "update_history (trained_runner (HistoryDict first_fit) None) = Inl (AttributeError ''history'')"
  by (simp add: update_history_def trained_runner_def)

text \<open>
  C10: after the merge on a second fit, the stored history has the metric keys of the
  first fit, in the same order: a metric that only the logger of the second fit has is not
  added, and a metric of the first fit that the second fit lacks keeps its frame.
\<close>

theorem history_keys_unchanged:
  assumes "is_trained self" and "model_history self = HistoryDict h" and "distinct (map fst h)"
    and "logger_history self = Some new_history"
  shows "\<exists>self' h'. update_history self = Inr self' \<and> model_history self' = HistoryDict h'
       \<and> map fst h' = map fst h
       \<and> (\<forall>key. key \<notin> set (map fst h) \<longrightarrow> map_of h' key = None)
       \<and> (\<forall>key val. map_of h key = Some val \<and> map_of new_history key = None \<longrightarrow>
             map_of h' key = Some val)"
proof -
  let ?h' = "fst (merge_loop h h new_history)"
  have k: "map fst ?h' = map fst h"
    by (rule merge_loop_keys) simp
  have n: "map_of ?h' key = None" if "key \<notin> set (map fst h)" for key
  proof -
    from that k have "key \<notin> fst ` set ?h'" by (metis set_map)
    then show ?thesis by (simp add: map_of_eq_None_iff)
  qed
  have u: "map_of ?h' key = Some val"
    if "map_of h key = Some val \<and> map_of new_history key = None" for key val
    using that merge_loop_lookup [OF assms(3), of h new_history key] by simp
  show ?thesis
    using update_history_merges [OF assms(1,2,4)] k n u by simp
qed

text \<open>
  The theorem at the two fits above: \<^verbatim>\<open>kl_weight\<close> occurs in the second fit only,
  \<^verbatim>\<open>elbo_validation\<close> in the first fit only.
\<close>

theorem history_keys_unchanged_witness:
  "is_trained (trained_runner (HistoryDict first_fit) (Some second_fit))
 \<and> distinct (map fst first_fit)
 \<and> (\<exists>self' h'. update_history (trained_runner (HistoryDict first_fit) (Some second_fit)) = Inr self'
       \<and> model_history self' = HistoryDict h'
       \<and> map fst h' = map fst first_fit
       \<and> (\<forall>key. key \<notin> set (map fst first_fit) \<longrightarrow> map_of h' key = None)
       \<and> (\<forall>key val. map_of first_fit key = Some val \<and> map_of second_fit key = None \<longrightarrow>
             map_of h' key = Some val))
 \<and> map_of second_fit ''kl_weight'' \<noteq> None \<and> ''kl_weight'' \<notin> set (map fst first_fit)
 \<and> map_of first_fit ''elbo_validation'' \<noteq> None \<and> map_of second_fit ''elbo_validation'' = None"
proof -
  let ?r = "trained_runner (HistoryDict first_fit) (Some second_fit)"
  have h1: "is_trained ?r" by (simp add: trained_runner_def)
  have h2: "model_history ?r = HistoryDict first_fit" by (simp add: trained_runner_def)
  have h3: "distinct (map fst first_fit)" by (simp add: first_fit_def)
  have h4: "logger_history ?r = Some second_fit" by (simp add: trained_runner_def)
  note t = history_keys_unchanged [OF h1 h2 h3 h4]
  have e: "map_of second_fit ''kl_weight'' \<noteq> None" "''kl_weight'' \<notin> set (map fst first_fit)"
    "map_of first_fit ''elbo_validation'' \<noteq> None" "map_of second_fit ''elbo_validation'' = None"
    by (simp_all add: first_fit_def second_fit_def)
  show ?thesis
    by (intro conjI) (rule h1, rule h3, rule t, rule e(1), rule e(2), rule e(3), rule e(4))
qed

end
